theory Spec2Isabelle
  imports Complex_Main "HOL-Library.Word" "HOL-Library.Sublist"
begin

section \<open>Remote command execution over a shell channel (poormanray, session.py)\<close>

text \<open>
  The theory embeds \<^verbatim>\<open>src/poormanray/session.py\<close>: the completion protocol
  (marker derivation, command injection, the regular-expression scan of the output
  buffer), the screen driver \<^verbatim>\<open>Session.run_in_screen\<close> with its polling loop, the
  one-shot path \<^verbatim>\<open>Session.run_single\<close> and the facade \<^verbatim>\<open>Session.run\<close>.

  Python text is a \<open>string\<close>; a payload handed to \<^verbatim>\<open>channel.send\<close> is recorded as the
  text that is encoded. Everything outside the file (paramiko, the socket, the clock, the
  MD5 digest, the logger) is an explicit parameter: the record \<open>remote\<close> scripts what
  the other side answers, and the list of \<open>event\<close>s records what the code does to it.
\<close>

subsection \<open>Characters of the protocol\<close>

definition LF :: char where "LF = CHR 0x0A"
definition CR :: char where "CR = CHR 0x0D"
definition BSL :: char where "BSL = CHR 0x5C"
definition SOH :: char where "SOH = CHR 0x01"

subsection \<open>The fragment of Python's \<^verbatim>\<open>re\<close> used by the scan\<close>

text \<open>
  The pattern of the scan is the text \<^verbatim>\<open>\r?\n\<close>, the completion marker, and
  \<^verbatim>\<open>\r?\n\<close> again, concatenated and handed to \<^verbatim>\<open>re.search\<close>. The marker is
  spliced in unescaped, so the model parses the pattern text: an item is a character
  (a word character standing for itself, or one of the escapes \<^verbatim>\<open>\r\<close>, \<^verbatim>\<open>\n\<close>),
  optionally followed by the quantifier \<^verbatim>\<open>?\<close>. Any other pattern text is outside the
  fragment and parses to \<open>None\<close>.
\<close>

datatype re_item = Lit char | Opt char

definition is_word_char :: "char \<Rightarrow> bool" where
  "is_word_char c \<longleftrightarrow>
     c \<in> set ''abcdefghijklmnopqrstuvwxyzABCDEFGHIJKLMNOPQRSTUVWXYZ0123456789_''"

definition re_escape :: "char \<Rightarrow> char option" where
  "re_escape e = (if e = CHR ''r'' then Some CR else if e = CHR ''n'' then Some LF else None)"

text \<open>One atom of the pattern: an escape or a word character, with the text after it.\<close>

definition re_atom :: "string \<Rightarrow> (char \<times> string) option" where
  "re_atom cs =
     (case cs of
        [] \<Rightarrow> None
      | c # r \<Rightarrow>
          if c = BSL then (case r of [] \<Rightarrow> None | e # r' \<Rightarrow> map_option (\<lambda>x. (x, r')) (re_escape e))
          else if is_word_char c then Some (c, r)
          else None)"

text \<open>The quantifier \<^verbatim>\<open>?\<close>, when it follows the atom.\<close>

definition re_quant :: "char \<Rightarrow> string \<Rightarrow> re_item \<times> string" where
  "re_quant x cs =
     (case cs of
        [] \<Rightarrow> (Lit x, [])
      | q # r \<Rightarrow> if q = CHR ''?'' then (Opt x, r) else (Lit x, cs))"

lemma re_atom_shorter: "re_atom cs = Some (x, r) \<Longrightarrow> length r < length cs"
  by (auto simp: re_atom_def split: list.splits if_splits)

lemma re_quant_shorter: "re_quant x cs = (it, r) \<Longrightarrow> length r \<le> length cs"
  by (auto simp: re_quant_def split: list.splits if_splits)

function re_parse :: "string \<Rightarrow> re_item list option" where
  "re_parse cs =
     (if cs = [] then Some []
      else case re_atom cs of
             None \<Rightarrow> None
           | Some (x, r) \<Rightarrow>
               (case re_quant x r of (it, r') \<Rightarrow> map_option ((#) it) (re_parse r')))"
  by pat_completeness auto
termination
proof (relation "measure length", simp)
  fix cs :: string and p x r q it r'
  assume "re_atom cs = Some p" "(x, r) = p" "(it, r') = re_quant x r"
  then have "length r < length cs" "length r' \<le> length r"
    using re_atom_shorter [of cs x r] re_quant_shorter [of x r it r'] by auto
  then show "(r', cs) \<in> measure length" by simp
qed

declare re_parse.simps [simp del]

text \<open>Matching at the start of the text: \<open>c?\<close> takes the character or skips it.\<close>

fun re_match_here :: "re_item list \<Rightarrow> string \<Rightarrow> bool" where
  "re_match_here [] s = True"
| "re_match_here (Lit c # p) [] = False"
| "re_match_here (Lit c # p) (x # s) = (x = c \<and> re_match_here p s)"
| "re_match_here (Opt c # p) [] = re_match_here p []"
| "re_match_here (Opt c # p) (x # s) = ((x = c \<and> re_match_here p s) \<or> re_match_here p (x # s))"

text \<open>\<^verbatim>\<open>re.search\<close>: a match starting at any position of the text.\<close>

fun re_search_items :: "re_item list \<Rightarrow> string \<Rightarrow> bool" where
  "re_search_items p [] = re_match_here p []"
| "re_search_items p (x # s) = (re_match_here p (x # s) \<or> re_search_items p s)"

text \<open>
  \<^verbatim>\<open>re.search(r"\r?\n" + completion_marker + r"\r?\n", buffer)\<close>, as a truth value.
  \<open>None\<close>: the pattern text leaves the fragment modelled here.
\<close>

definition line_break_re :: string where
  "line_break_re = [BSL, CHR ''r'', CHR ''?'', BSL, CHR ''n'']"

definition scan :: "string \<Rightarrow> string \<Rightarrow> bool option" where
  "scan buffer completion_marker =
     map_option (\<lambda>p. re_search_items p buffer)
       (re_parse (line_break_re @ completion_marker @ line_break_re))"

subsection \<open>Marker derivation\<close>

text \<open>
  \<^verbatim>\<open>hashlib.md5(command.encode()).hexdigest()\<close>: the digest function is a parameter
  \<open>md5\<close> from the command text to the digest bytes; \<^verbatim>\<open>hexdigest\<close> prints each byte as
  two lower-case hexadecimal digits.
\<close>

definition hex_digit :: "nat \<Rightarrow> char" where
  "hex_digit n = ''0123456789abcdef'' ! (n mod 16)"

definition hex_byte :: "8 word \<Rightarrow> string" where
  "hex_byte b = [hex_digit (unat b div 16), hex_digit (unat b mod 16)]"

definition hexdigest :: "8 word list \<Rightarrow> string" where
  "hexdigest bs = concat (map hex_byte bs)"

text \<open>\<^verbatim>\<open>command_hash = hashlib.md5(command.encode()).hexdigest()[:12]\<close>\<close>

definition command_hash :: "(string \<Rightarrow> 8 word list) \<Rightarrow> string \<Rightarrow> string" where
  "command_hash md5 command = take 12 (hexdigest (md5 command))"

text \<open>\<^verbatim>\<open>completion_marker = f"CMD_COMPLETED_{command_hash[:20]}"\<close>\<close>

definition completion_marker :: "(string \<Rightarrow> 8 word list) \<Rightarrow> string \<Rightarrow> string" where
  "completion_marker md5 command = ''CMD_COMPLETED_'' @ take 20 (command_hash md5 command)"

text \<open>
  \<^verbatim>\<open>screen_name = f"olmo-cookbook-{command_hash}-{time.time()}"\<close>: the clock reading
  \<open>t\<close> is printed by \<open>fmt\<close>, Python's conversion of a float to text.
\<close>

definition screen_name :: "(string \<Rightarrow> 8 word list) \<Rightarrow> ('t \<Rightarrow> string) \<Rightarrow> string \<Rightarrow> 't \<Rightarrow> string" where
  "screen_name md5 fmt command t = ''olmo-cookbook-'' @ command_hash md5 command @ ''-'' @ fmt t"

text \<open>
  Lines 106, 116 and 120 together, at the clock reading \<open>t\<close>: the name of the screen
  session and the completion marker derived for a command.
\<close>

definition derive_marker ::
  "(string \<Rightarrow> 8 word list) \<Rightarrow> ('t \<Rightarrow> string) \<Rightarrow> string \<Rightarrow> 't \<Rightarrow> string \<times> string" where
  "derive_marker digest fmt command t =
     (screen_name digest fmt command t, completion_marker digest command)"

subsection \<open>Data model\<close>

text \<open>
  Modelled from the spec: the enumeration \<^verbatim>\<open>InstanceStatus\<close> and the class
  \<^verbatim>\<open>InstanceInfo\<close> live in \<^verbatim>\<open>cli.py\<close>, which is not part of the sources at hand. The
  spec lists the lifecycle status as "pending, running, stopped, terminated, ..." and the
  endpoint as identifier, network address and status; any further status is \<open>OTHER\<close>.
\<close>

datatype InstanceStatus = PENDING | RUNNING | STOPPED | TERMINATED | OTHER string

record InstanceInfo =
  instance_id :: string
  public_ip_address :: string
  state :: InstanceStatus

record Session =
  private_key_path :: "string option"
  user :: string
  instance_info :: InstanceInfo

record SessionContent =
  stdout :: string
  stderr :: string

text \<open>
  The exceptions of the file: the \<^verbatim>\<open>ValueError\<close> of \<^verbatim>\<open>run\<close>, the \<^verbatim>\<open>RuntimeError\<close>
  of \<^verbatim>\<open>run_in_screen\<close>, and whatever paramiko, the socket or the codec raise, which the
  other side scripts by a number.
\<close>

datatype exn = ValueError string | RuntimeError string | External nat

text \<open>
  What the code does to the outside, in order. A client is numbered by the order of its
  \<^verbatim>\<open>client.connect\<close> call; its shell channel carries the same number.
\<close>

datatype event =
    ConnectCall nat string string "string option"
  | Connected nat
  | Close nat
  | ExecCommand nat string "int option" bool
  | InvokeShell nat
  | ResizePty nat nat nat
  | Send nat string
  | Recv nat
  | StdoutWrite string
  | LogInfo string
  | LogWarning string

text \<open>
  What the outside answers. \<open>connect_raises n\<close>: the exception of the \<open>n\<close>-th
  \<^verbatim>\<open>client.connect\<close>, if any. \<open>exec_result c\<close>: \<^verbatim>\<open>exec_command\<close> of \<open>c\<close> with both
  streams read to their end and decoded. \<open>send_raises k\<close>: the \<open>k\<close>-th \<^verbatim>\<open>channel.send\<close>
  of a call. For the \<open>i\<close>-th turn of the polling loop: \<open>recv_ready i\<close>, \<open>recv i\<close>
  (\<^verbatim>\<open>channel.recv(4096).decode("utf-8")\<close>), \<open>stdout_raises i\<close> (the exception of
  \<^verbatim>\<open>sys.stdout.write\<close> or \<^verbatim>\<open>flush\<close> on the chunk, if any) and \<open>now i\<close>, the clock at the
  timeout check.
  \<^verbatim>\<open>time.sleep\<close> has no effect but on the clock, which is scripted, and is left out.
\<close>

record remote =
  md5 :: "string \<Rightarrow> 8 word list"
  fmt_time :: "real \<Rightarrow> string"
  connect_raises :: "nat \<Rightarrow> nat option"
  exec_result :: "string \<Rightarrow> nat + (string \<times> string)"
  terminal_size :: "nat \<times> nat"
  invoke_shell_raises :: "nat option"
  resize_pty_raises :: "nat option"
  send_raises :: "nat \<Rightarrow> nat option"
  name_time :: real
  start_time :: real
  recv_ready :: "nat \<Rightarrow> bool"
  recv :: "nat \<Rightarrow> nat + string"
  stdout_raises :: "nat \<Rightarrow> nat option"
  now :: "nat \<Rightarrow> real"

subsection \<open>Transport: connect, shell, one-shot execution\<close>

fun is_connect_call :: "event \<Rightarrow> bool" where
  "is_connect_call (ConnectCall n a u k) = True"
| "is_connect_call e = False"

definition next_client :: "event list \<Rightarrow> nat" where
  "next_client tr = length (filter is_connect_call tr)"

text \<open>
  \<^verbatim>\<open>Session.connect\<close>: \<^verbatim>\<open>if self.private_key_path\<close> is false for \<^verbatim>\<open>None\<close> and for the
  empty text; then no key file is passed.
\<close>

definition key_filename :: "Session \<Rightarrow> string option" where
  "key_filename self =
     (case private_key_path self of
        None \<Rightarrow> None
      | Some path \<Rightarrow> if path = [] then None else Some path)"

definition connect :: "remote \<Rightarrow> Session \<Rightarrow> event list \<Rightarrow> (exn + nat) \<times> event list" where
  "connect env self tr =
     (let client = next_client tr;
          tr1 = tr @ [ConnectCall client (public_ip_address (instance_info self)) (user self)
                        (key_filename self)]
      in case connect_raises env client of
           Some e \<Rightarrow> (Inl (External e), tr1)
         | None \<Rightarrow> (Inr client, tr1 @ [Connected client]))"

text \<open>\<^verbatim>\<open>Session.shell\<close>: the local terminal size, \<^verbatim>\<open>invoke_shell\<close>, \<^verbatim>\<open>resize_pty\<close>.\<close>

definition shell :: "remote \<Rightarrow> nat \<Rightarrow> event list \<Rightarrow> exn option \<times> event list" where
  "shell env client tr =
     (case terminal_size env of (term_width, term_height) \<Rightarrow>
        (case invoke_shell_raises env of
           Some e \<Rightarrow> (Some (External e), tr @ [InvokeShell client])
         | None \<Rightarrow>
             (map_option External (resize_pty_raises env),
              tr @ [InvokeShell client, ResizePty client term_width term_height])))"

text \<open>\<^verbatim>\<open>Session.run_single\<close> with \<^verbatim>\<open>SessionContent.from_command\<close>.\<close>

definition run_single ::
  "remote \<Rightarrow> Session \<Rightarrow> string \<Rightarrow> int option \<Rightarrow> bool \<Rightarrow> event list
     \<Rightarrow> (exn + SessionContent) \<times> event list" where
  "run_single env self command timeout get_pty tr =
     (case connect env self tr of
        (Inl e, tr1) \<Rightarrow> (Inl e, tr1)
      | (Inr client, tr1) \<Rightarrow>
          (case exec_result env command of
             Inl e \<Rightarrow> (Inl (External e), tr1 @ [ExecCommand client command timeout get_pty])
           | Inr (out, err) \<Rightarrow>
               (Inr \<lparr>stdout = out, stderr = err\<rparr>,
                tr1 @ [ExecCommand client command timeout get_pty])))"

subsection \<open>The screen driver\<close>

text \<open>\<^verbatim>\<open>channel.send\<close>, the \<open>k\<close>-th of the call.\<close>

definition send :: "remote \<Rightarrow> nat \<Rightarrow> nat \<Rightarrow> string \<Rightarrow> event list \<Rightarrow> exn option \<times> event list" where
  "send env client k text tr = (map_option External (send_raises env k), tr @ [Send client text])"

text \<open>The text of lines 123 to 126: the command, the echo of the marker, the quit.\<close>

definition injection :: "string \<Rightarrow> string \<Rightarrow> bool \<Rightarrow> string" where
  "injection command marker terminate =
     (if terminate then command @ ''; echo '' @ [CHR 0x27] @ marker @ [CHR 0x27] @ ''; screen -X quit''
      else command @ ''; echo '' @ [CHR 0x27] @ marker @ [CHR 0x27])"

text \<open>
  Python's truth value of \<^verbatim>\<open>timeout\<close> (an \<^verbatim>\<open>int | None\<close>): \<^verbatim>\<open>None\<close> and \<^verbatim>\<open>0\<close> are
  false.
\<close>

definition truthy :: "int option \<Rightarrow> bool" where
  "truthy timeout = (case timeout of None \<Rightarrow> False | Some t \<Rightarrow> t \<noteq> 0)"

text \<open>
  One turn of the \<^verbatim>\<open>while True\<close> loop (lines 141 to 161): it breaks with the buffer,
  raises, or goes on with the buffer it has. The scan is \<open>Some\<close> for every marker the
  code derives (lemma \<open>scan_marker_defined\<close> below).
\<close>

datatype turn = Break string "event list" | Raise exn "event list" | Continue string "event list"

definition timeout_check ::
  "remote \<Rightarrow> int option \<Rightarrow> string \<Rightarrow> nat \<Rightarrow> string \<Rightarrow> event list \<Rightarrow> turn" where
  "timeout_check env timeout command i buffer tr =
     (if truthy timeout \<and> now env i - start_time env > of_int (the timeout)
      then Break buffer (tr @ [LogWarning ([LF] @ ''Timeout waiting for command: '' @ command)])
      else Continue buffer tr)"

definition poll_turn ::
  "remote \<Rightarrow> nat \<Rightarrow> int option \<Rightarrow> string \<Rightarrow> string \<Rightarrow> nat \<Rightarrow> string \<Rightarrow> event list \<Rightarrow> turn" where
  "poll_turn env client timeout marker command i buffer tr =
     (if recv_ready env i then
        (case recv env i of
           Inl e \<Rightarrow> Raise (External e) (tr @ [Recv client])
         | Inr chunk \<Rightarrow>
             (case stdout_raises env i of
                Some e \<Rightarrow> Raise (External e) (tr @ [Recv client, StdoutWrite chunk])
              | None \<Rightarrow>
                  if scan (buffer @ chunk) marker = Some True
                  then Break (buffer @ chunk) (tr @ [Recv client, StdoutWrite chunk])
                  else timeout_check env timeout command i (buffer @ chunk)
                         (tr @ [Recv client, StdoutWrite chunk])))
      else timeout_check env timeout command i buffer tr)"

text \<open>The loop. \<open>None\<close>: it never leaves.\<close>

partial_function (option) poll ::
  "remote \<Rightarrow> nat \<Rightarrow> int option \<Rightarrow> string \<Rightarrow> string \<Rightarrow> nat \<Rightarrow> string \<Rightarrow> event list
     \<Rightarrow> ((exn + string) \<times> event list) option" where
  "poll env client timeout marker command i buffer tr =
     (case poll_turn env client timeout marker command i buffer tr of
        Break b t \<Rightarrow> Some (Inr b, t)
      | Raise e t \<Rightarrow> Some (Inl e, t)
      | Continue b t \<Rightarrow> poll env client timeout marker command (Suc i) b t)"

text \<open>
  Lines 111 to 118, inside the \<^verbatim>\<open>try\<close>: the log line, the shell channel, and the line
  that starts a screen session under a fresh name.
\<close>

definition start_screen ::
  "remote \<Rightarrow> Session \<Rightarrow> string \<Rightarrow> nat \<Rightarrow> event list \<Rightarrow> exn option \<times> event list" where
  "start_screen env self command client tr =
     (case shell env client
             (tr @ [LogInfo (''Connected to '' @ public_ip_address (instance_info self))]) of
        (Some e, tr1) \<Rightarrow> (Some e, tr1)
      | (None, tr1) \<Rightarrow>
          send env client 0
            (''screen -S '' @ screen_name (md5 env) (fmt_time env) command (name_time env) @ [LF])
            tr1)"

text \<open>Lines 122 to 129: the command line, then the newline that runs it.\<close>

definition inject ::
  "remote \<Rightarrow> string \<Rightarrow> bool \<Rightarrow> nat \<Rightarrow> event list \<Rightarrow> exn option \<times> event list" where
  "inject env command terminate client tr =
     (case send env client 1
             (injection command (completion_marker (md5 env) command) terminate) tr of
        (Some e, tr1) \<Rightarrow> (Some e, tr1)
      | (None, tr1) \<Rightarrow> send env client 2 [LF] tr1)"

text \<open>
  Lines 132 to 161: with \<^verbatim>\<open>detach\<close> the keystroke Ctrl+A, d is sent and the buffer stays
  empty; otherwise the loop runs from the empty buffer.
\<close>

definition detach_or_poll ::
  "remote \<Rightarrow> string \<Rightarrow> bool \<Rightarrow> int option \<Rightarrow> nat \<Rightarrow> event list
     \<Rightarrow> ((exn + string) \<times> event list) option" where
  "detach_or_poll env command detach timeout client tr =
     (if detach then
        (case send env client 3 [SOH, CHR ''d''] tr of
           (Some e, tr1) \<Rightarrow> Some (Inl e, tr1)
         | (None, tr1) \<Rightarrow> Some (Inr [], tr1))
      else poll env client timeout (completion_marker (md5 env) command) command 0 [] tr)"

text \<open>
  The body of the \<^verbatim>\<open>try\<close> after \<^verbatim>\<open>self.connect()\<close>, up to \<^verbatim>\<open>client.close()\<close> and the
  \<^verbatim>\<open>return\<close> of lines 164 and 165.
\<close>

definition in_screen ::
  "remote \<Rightarrow> Session \<Rightarrow> string \<Rightarrow> bool \<Rightarrow> int option \<Rightarrow> bool \<Rightarrow> nat \<Rightarrow> event list
     \<Rightarrow> ((exn + SessionContent) \<times> event list) option" where
  "in_screen env self command detach timeout terminate client tr =
     (case start_screen env self command client tr of
        (Some e, tr1) \<Rightarrow> Some (Inl e, tr1)
      | (None, tr1) \<Rightarrow>
          (case inject env command terminate client tr1 of
             (Some e, tr2) \<Rightarrow> Some (Inl e, tr2)
           | (None, tr2) \<Rightarrow>
               (case detach_or_poll env command detach timeout client tr2 of
                  None \<Rightarrow> None
                | Some (Inl e, tr3) \<Rightarrow> Some (Inl e, tr3)
                | Some (Inr buffer, tr3) \<Rightarrow>
                    Some (Inr \<lparr>stdout = buffer, stderr = buffer\<rparr>, tr3 @ [Close client]))))"

text \<open>
  \<^verbatim>\<open>Session.run_in_screen\<close>. The probe runs before the \<^verbatim>\<open>try\<close>. An exception of
  \<^verbatim>\<open>self.connect()\<close> finds \<^verbatim>\<open>client\<close> still \<^verbatim>\<open>None\<close> in the handler, which then closes
  nothing; any later exception closes the client and is raised again.
\<close>

definition run_in_screen ::
  "remote \<Rightarrow> Session \<Rightarrow> string \<Rightarrow> bool \<Rightarrow> int option \<Rightarrow> bool \<Rightarrow> event list
     \<Rightarrow> ((exn + SessionContent) \<times> event list) option" where
  "run_in_screen env self command detach timeout terminate tr =
     (case run_single env self ''which screen'' None False tr of
        (Inl e, tr0) \<Rightarrow> Some (Inl e, tr0)
      | (Inr probe, tr0) \<Rightarrow>
          if \<not> sublist ''screen'' (stdout probe)
          then Some (Inl (RuntimeError ''screen is not installed; cannot run in screen''), tr0)
          else
            (case connect env self tr0 of
               (Inl e, tr1) \<Rightarrow> Some (Inl e, tr1)
             | (Inr client, tr1) \<Rightarrow>
                 (case in_screen env self command detach timeout terminate client tr1 of
                    None \<Rightarrow> None
                  | Some (Inl e, tr2) \<Rightarrow> Some (Inl e, tr2 @ [Close client])
                  | Some (Inr content, tr2) \<Rightarrow> Some (Inr content, tr2))))"

subsection \<open>The facade\<close>

text \<open>\<^verbatim>\<open>Session.run\<close>; \<^verbatim>\<open>timeout or 600\<close> replaces a false timeout by 600.\<close>

definition run ::
  "remote \<Rightarrow> Session \<Rightarrow> string \<Rightarrow> bool \<Rightarrow> bool \<Rightarrow> bool \<Rightarrow> int option \<Rightarrow> event list
     \<Rightarrow> ((exn + SessionContent) \<times> event list) option" where
  "run env self command get_pty detach terminate timeout tr =
     (if state (instance_info self) \<noteq> RUNNING
      then Some (Inl (ValueError (''Instance '' @ instance_id (instance_info self) @ '' is not running'')), tr)
      else if detach
      then run_in_screen env self command detach (if truthy timeout then timeout else Some 600)
             terminate tr
      else Some (run_single env self command timeout get_pty tr))"

subsection \<open>Reading a trace\<close>

text \<open>
  The output the channel hands over in turn \<open>i\<close> of the loop, and the output accumulated
  by the first \<open>n\<close> turns.
\<close>

definition received :: "remote \<Rightarrow> nat \<Rightarrow> string" where
  "received env i =
     (if recv_ready env i then (case recv env i of Inl e \<Rightarrow> [] | Inr chunk \<Rightarrow> chunk) else [])"

definition accumulated :: "remote \<Rightarrow> nat \<Rightarrow> string" where
  "accumulated env n = concat (map (received env) [0..<n])"

text \<open>
  A read of turn \<open>i\<close> that raises; a chunk of turn \<open>i\<close> whose echo to the local
  standard output raises; a turn that raises one way or the other.
\<close>

definition recv_fails :: "remote \<Rightarrow> nat \<Rightarrow> bool" where
  "recv_fails env i \<longleftrightarrow> recv_ready env i \<and> isl (recv env i)"

definition echo_fails :: "remote \<Rightarrow> nat \<Rightarrow> bool" where
  "echo_fails env i \<longleftrightarrow> recv_ready env i \<and> \<not> isl (recv env i) \<and> stdout_raises env i \<noteq> None"

definition turn_raises :: "remote \<Rightarrow> nat \<Rightarrow> bool" where
  "turn_raises env i \<longleftrightarrow> recv_fails env i \<or> echo_fails env i"

definition raised :: "remote \<Rightarrow> nat \<Rightarrow> exn" where
  "raised env i =
     (case recv env i of
        Inl e \<Rightarrow> External e
      | Inr chunk \<Rightarrow> External (the (stdout_raises env i)))"

text \<open>The chunks echoed to the local standard output, in one text.\<close>

fun echoed :: "event list \<Rightarrow> string" where
  "echoed [] = []"
| "echoed (StdoutWrite chunk # tr) = chunk @ echoed tr"
| "echoed (e # tr) = echoed tr"


fun track :: "nat list \<Rightarrow> event \<Rightarrow> nat list" where
  "track ls (Connected n) = ls @ [n]"
| "track ls (Close n) = removeAll n ls"
| "track ls e = ls"

definition live :: "event list \<Rightarrow> nat list" where
  "live tr = foldl track [] tr"

definition closes :: "event list \<Rightarrow> nat \<Rightarrow> nat" where
  "closes tr n = count_list tr (Close n)"

fun channel_event :: "event \<Rightarrow> bool" where
  "channel_event (InvokeShell n) = True"
| "channel_event (ResizePty n w h) = True"
| "channel_event (Send n t) = True"
| "channel_event (Recv n) = True"
| "channel_event e = False"

subsection \<open>Reading the script of the other side\<close>

text \<open>
  Turn \<open>i\<close> of the loop, seen from the script alone: the timeout check fires; the read
  completes the marker; the turn leaves the loop (by an exception, a match or the timeout).
\<close>

definition timed_out :: "remote \<Rightarrow> int option \<Rightarrow> nat \<Rightarrow> bool" where
  "timed_out env timeout i \<longleftrightarrow>
     truthy timeout \<and> now env i - start_time env > of_int (the timeout)"

definition detected :: "remote \<Rightarrow> string \<Rightarrow> nat \<Rightarrow> bool" where
  "detected env marker i \<longleftrightarrow>
     recv_ready env i \<and> \<not> isl (recv env i) \<and> stdout_raises env i = None
     \<and> scan (accumulated env (Suc i)) marker = Some True"

definition leaves :: "remote \<Rightarrow> int option \<Rightarrow> string \<Rightarrow> nat \<Rightarrow> bool" where
  "leaves env timeout marker i \<longleftrightarrow>
     turn_raises env i \<or> detected env marker i \<or> timed_out env timeout i"

text \<open>The events of turn \<open>i\<close> before any warning, and those of the first \<open>n\<close> turns.\<close>

definition turn_events :: "remote \<Rightarrow> nat \<Rightarrow> nat \<Rightarrow> event list" where
  "turn_events env client i =
     (if recv_ready env i
      then (case recv env i of
              Inl e \<Rightarrow> [Recv client]
            | Inr chunk \<Rightarrow> [Recv client, StdoutWrite chunk])
      else [])"

definition loop_events :: "remote \<Rightarrow> nat \<Rightarrow> nat \<Rightarrow> event list" where
  "loop_events env client n = concat (map (turn_events env client) [0..<n])"

definition timeout_warning :: "string \<Rightarrow> event" where
  "timeout_warning command = LogWarning ([LF] @ ''Timeout waiting for command: '' @ command)"

text \<open>What the loop yields when turn \<open>k\<close> is the first to leave it.\<close>

definition exit_result ::
  "remote \<Rightarrow> nat \<Rightarrow> int option \<Rightarrow> string \<Rightarrow> string \<Rightarrow> nat \<Rightarrow> event list
     \<Rightarrow> (exn + string) \<times> event list" where
  "exit_result env client timeout marker command k tr =
     (if turn_raises env k
      then (Inl (raised env k), tr @ loop_events env client (Suc k))
      else if detected env marker k
      then (Inr (accumulated env (Suc k)), tr @ loop_events env client (Suc k))
      else (Inr (accumulated env (Suc k)),
            tr @ loop_events env client (Suc k) @ [timeout_warning command]))"

text \<open>
  The other side lets the driver reach the loop or the detach: the probe finds screen,
  both connections open, the shell channel opens, and the three sends go through.
\<close>

definition setup_ok :: "remote \<Rightarrow> event list \<Rightarrow> bool" where
  "setup_ok env tr \<longleftrightarrow>
     (case exec_result env ''which screen'' of
        Inl e \<Rightarrow> False
      | Inr (out, err) \<Rightarrow> sublist ''screen'' out)
     \<and> connect_raises env (next_client tr) = None
     \<and> connect_raises env (Suc (next_client tr)) = None
     \<and> invoke_shell_raises env = None \<and> resize_pty_raises env = None
     \<and> send_raises env 0 = None \<and> send_raises env 1 = None \<and> send_raises env 2 = None"

text \<open>The events of such a run up to the newline that runs the command.\<close>

definition setup_events :: "remote \<Rightarrow> Session \<Rightarrow> string \<Rightarrow> bool \<Rightarrow> nat \<Rightarrow> event list" where
  "setup_events env self command terminate probe_client =
     [ConnectCall probe_client (public_ip_address (instance_info self)) (user self) (key_filename self),
      Connected probe_client,
      ExecCommand probe_client ''which screen'' None False,
      ConnectCall (Suc probe_client) (public_ip_address (instance_info self)) (user self)
        (key_filename self),
      Connected (Suc probe_client),
      LogInfo (''Connected to '' @ public_ip_address (instance_info self)),
      InvokeShell (Suc probe_client),
      ResizePty (Suc probe_client) (fst (terminal_size env)) (snd (terminal_size env)),
      Send (Suc probe_client)
        (''screen -S '' @ screen_name (md5 env) (fmt_time env) command (name_time env) @ [LF]),
      Send (Suc probe_client) (injection command (completion_marker (md5 env) command) terminate),
      Send (Suc probe_client) [LF]]"

subsection \<open>A session and scripts to run the model on\<close>

definition demo_session :: Session where
  "demo_session =
     \<lparr>private_key_path = None, user = ''ec2-user'',
      instance_info = \<lparr>instance_id = ''i-0abc'', public_ip_address = ''10.0.0.7'', state = RUNNING\<rparr>\<rparr>"

definition stopped_session :: Session where
  "stopped_session =
     \<lparr>private_key_path = None, user = ''ec2-user'',
      instance_info = \<lparr>instance_id = ''i-0abc'', public_ip_address = ''10.0.0.7'', state = STOPPED\<rparr>\<rparr>"

text \<open>
  Screen is installed, nothing fails, the channel stays silent, and the clock of the
  loop advances by one second a turn.
\<close>

definition quiet_remote :: remote where
  "quiet_remote =
     \<lparr>md5 = (\<lambda>c. replicate 16 0),
      fmt_time = (\<lambda>t. ''1700000000.25''),
      connect_raises = (\<lambda>n. None),
      exec_result = (\<lambda>c. if c = ''which screen'' then Inr (''/usr/bin/screen'' @ [LF], [])
                          else Inr (''hello'' @ [LF], [])),
      terminal_size = (80, 24),
      invoke_shell_raises = None,
      resize_pty_raises = None,
      send_raises = (\<lambda>k. None),
      name_time = 1700000000.25,
      start_time = 100,
      recv_ready = (\<lambda>i. False),
      recv = (\<lambda>i. Inr []),
      stdout_raises = (\<lambda>i. None),
      now = (\<lambda>i. 100 + real i)\<rparr>"

text \<open>The first read delivers a prompt, nothing follows.\<close>

definition prompt_remote :: remote where
  "prompt_remote =
     quiet_remote\<lparr>recv_ready := (\<lambda>i. i = 0), recv := (\<lambda>i. Inr ''$ '')\<rparr>"

text \<open>The first read delivers the marker on a line of its own.\<close>

definition done_remote :: remote where
  "done_remote =
     quiet_remote\<lparr>recv_ready := (\<lambda>i. True),
       recv := (\<lambda>i. Inr (''hello'' @ [CR, LF] @ ''CMD_COMPLETED_000000000000'' @ [CR, LF]))\<rparr>"

text \<open>The probe finds no screen.\<close>

definition bare_remote :: remote where
  "bare_remote = quiet_remote\<lparr>exec_result := (\<lambda>c. Inr ([], ''which: no screen in (/usr/bin)''))\<rparr>"

section \<open>The completion scan\<close>

lemma hex_digit_word: "is_word_char (hex_digit n)"
proof -
  have "\<forall>k \<in> set [0..<16]. is_word_char (''0123456789abcdef'' ! k)"
    by (simp add: upt_rec is_word_char_def)
  moreover have "n mod 16 \<in> set [0..<16]" by simp
  ultimately show ?thesis unfolding hex_digit_def by blast
qed

lemma hexdigest_word: "c \<in> set (hexdigest bs) \<Longrightarrow> is_word_char c"
  by (auto simp: hexdigest_def hex_byte_def hex_digit_word)

lemma completion_marker_word: "c \<in> set (completion_marker digest command) \<Longrightarrow> is_word_char c"
  unfolding completion_marker_def command_hash_def
  apply (auto dest!: in_set_takeD simp: hexdigest_word)
  apply (simp_all add: is_word_char_def)
  done

lemma re_match_lits: "re_match_here (map Lit m @ p) s \<longleftrightarrow> (\<exists>r. s = m @ r \<and> re_match_here p r)"
proof (induction m arbitrary: s)
  case Nil show ?case by simp
next
  case (Cons c m)
  show ?case by (cases s) (auto simp: Cons.IH)
qed

lemma re_match_line_break:
  "re_match_here (Opt CR # Lit LF # p) s \<longleftrightarrow>
     (\<exists>r. (s = LF # r \<or> s = CR # LF # r) \<and> re_match_here p r)"
proof (cases s)
  case Nil then show ?thesis by simp
next
  case (Cons x t)
  then show ?thesis by (cases t) (auto simp: CR_def LF_def)
qed

lemma re_search_items_iff:
  "re_search_items p s \<longleftrightarrow> (\<exists>pre suf. s = pre @ suf \<and> re_match_here p suf)"
proof (induction s)
  case Nil show ?case by simp
next
  case (Cons x s)
  show ?case
  proof
    assume "re_search_items p (x # s)"
    then consider "re_match_here p (x # s)" | "re_search_items p s" by auto
    then show "\<exists>pre suf. x # s = pre @ suf \<and> re_match_here p suf"
    proof cases
      case 1
      have "x # s = [] @ (x # s)" by simp
      with 1 show ?thesis by blast
    next
      case 2
      then obtain pre suf where "s = pre @ suf" "re_match_here p suf" using Cons.IH by blast
      then have "x # s = (x # pre) @ suf" by simp
      with \<open>re_match_here p suf\<close> show ?thesis by blast
    qed
  next
    assume "\<exists>pre suf. x # s = pre @ suf \<and> re_match_here p suf"
    then obtain pre suf where ps: "x # s = pre @ suf" "re_match_here p suf" by blast
    show "re_search_items p (x # s)"
    proof (cases pre)
      case Nil with ps show ?thesis by auto
    next
      case (Cons y pre')
      with ps have "s = pre' @ suf" by simp
      with ps Cons.IH show ?thesis by auto
    qed
  qed
qed


lemma re_parse_Nil: "re_parse [] = Some []"
  by (simp add: re_parse.simps)

lemma not_q: "is_word_char c \<Longrightarrow> c \<noteq> CHR ''?'' \<and> c \<noteq> BSL"
  by (auto simp: is_word_char_def BSL_def)

lemma re_parse_word:
  assumes "is_word_char c" "rest = [] \<or> hd rest \<noteq> CHR ''?''"
  shows "re_parse (c # rest) = map_option ((#) (Lit c)) (re_parse rest)"
  using assms not_q [of c]
  by (subst re_parse.simps) (auto simp: re_atom_def re_quant_def split: list.splits)

lemma re_parse_words:
  assumes "\<forall>c \<in> set m. is_word_char c" "rest = [] \<or> hd rest \<noteq> CHR ''?''"
  shows "re_parse (m @ rest) = map_option ((@) (map Lit m)) (re_parse rest)"
  using assms
proof (induction m)
  case Nil
  show ?case by (simp add: option.map_ident)
next
  case (Cons c m)
  have "m @ rest = [] \<or> hd (m @ rest) \<noteq> CHR ''?''"
    using Cons.prems not_q by (cases m) auto
  then have "re_parse (c # m @ rest) = map_option ((#) (Lit c)) (re_parse (m @ rest))"
    using Cons.prems re_parse_word by simp
  then show ?case using Cons by (simp add: option.map_comp comp_def)
qed

lemma re_parse_line_break:
  assumes "rest = [] \<or> hd rest \<noteq> CHR ''?''"
  shows "re_parse (line_break_re @ rest) = map_option (\<lambda>p. Opt CR # Lit LF # p) (re_parse rest)"
proof -
  have 1: "re_parse (line_break_re @ rest) = map_option ((#) (Opt CR)) (re_parse (BSL # CHR ''n'' # rest))"
    by (subst re_parse.simps) (simp add: line_break_re_def re_atom_def re_quant_def re_escape_def)
  have 2: "re_parse (BSL # CHR ''n'' # rest) = map_option ((#) (Lit LF)) (re_parse rest)"
    using assms
    by (subst re_parse.simps) (auto simp: re_atom_def re_quant_def re_escape_def split: list.splits)
  show ?thesis by (simp add: 1 2 option.map_comp comp_def)
qed

lemma re_parse_scan_pattern:
  assumes "\<forall>c \<in> set m. is_word_char c"
  shows "re_parse (line_break_re @ m @ line_break_re)
         = Some (Opt CR # Lit LF # map Lit m @ [Opt CR, Lit LF])"
proof -
  have q: "line_break_re \<noteq> [] \<and> hd line_break_re \<noteq> CHR ''?''"
    by (simp add: line_break_re_def BSL_def)
  have "m @ line_break_re = [] \<or> hd (m @ line_break_re) \<noteq> CHR ''?''"
    using assms q not_q by (cases m) auto
  then have "re_parse (line_break_re @ m @ line_break_re)
      = map_option (\<lambda>p. Opt CR # Lit LF # p) (re_parse (m @ line_break_re))"
    by (rule re_parse_line_break)
  also have "re_parse (m @ line_break_re) = map_option ((@) (map Lit m)) (re_parse line_break_re)"
    using assms q by (intro re_parse_words) auto
  also have "re_parse line_break_re = Some [Opt CR, Lit LF]"
    using re_parse_line_break [of "[]"] by (simp add: re_parse_Nil)
  finally show ?thesis by simp
qed

lemma scan_literal:
  assumes "\<forall>c \<in> set m. is_word_char c"
  shows "scan buffer m = Some (\<exists>pre nl1 nl2 post. nl1 \<in> {[LF], [CR, LF]} \<and> nl2 \<in> {[LF], [CR, LF]}
            \<and> buffer = pre @ nl1 @ m @ nl2 @ post)"
proof -
  have "re_search_items (Opt CR # Lit LF # map Lit m @ [Opt CR, Lit LF]) buffer
     \<longleftrightarrow> (\<exists>pre nl1 nl2 post. nl1 \<in> {[LF], [CR, LF]} \<and> nl2 \<in> {[LF], [CR, LF]}
            \<and> buffer = pre @ nl1 @ m @ nl2 @ post)" (is "?L \<longleftrightarrow> ?R")
  proof
    assume ?L
    then obtain pre suf where b: "buffer = pre @ suf"
      and "re_match_here (Opt CR # Lit LF # map Lit m @ [Opt CR, Lit LF]) suf"
      unfolding re_search_items_iff by blast
    then obtain r where r: "suf = LF # r \<or> suf = CR # LF # r"
      and "re_match_here (map Lit m @ [Opt CR, Lit LF]) r"
      unfolding re_match_line_break by blast
    then obtain r2 where r2: "r = m @ r2" and "re_match_here [Opt CR, Lit LF] r2"
      unfolding re_match_lits by blast
    then obtain post where p: "r2 = LF # post \<or> r2 = CR # LF # post"
      unfolding re_match_line_break by blast
    from r p show ?R
    proof (elim disjE)
      assume "suf = LF # r" "r2 = LF # post"
      with b r2 have "buffer = pre @ [LF] @ m @ [LF] @ post" by simp
      then show ?R by blast
    next
      assume "suf = LF # r" "r2 = CR # LF # post"
      with b r2 have "buffer = pre @ [LF] @ m @ [CR, LF] @ post" by simp
      then show ?R by blast
    next
      assume "suf = CR # LF # r" "r2 = LF # post"
      with b r2 have "buffer = pre @ [CR, LF] @ m @ [LF] @ post" by simp
      then show ?R by blast
    next
      assume "suf = CR # LF # r" "r2 = CR # LF # post"
      with b r2 have "buffer = pre @ [CR, LF] @ m @ [CR, LF] @ post" by simp
      then show ?R by blast
    qed
  next
    assume ?R
    then obtain pre nl1 nl2 post where n1: "nl1 \<in> {[LF], [CR, LF]}" and n2: "nl2 \<in> {[LF], [CR, LF]}"
      and b: "buffer = pre @ nl1 @ m @ nl2 @ post" by blast
    from n2 have "re_match_here [Opt CR, Lit LF] (nl2 @ post)"
      unfolding re_match_line_break by auto
    then have "re_match_here (map Lit m @ [Opt CR, Lit LF]) (m @ nl2 @ post)"
      unfolding re_match_lits by blast
    with n1 have "re_match_here (Opt CR # Lit LF # map Lit m @ [Opt CR, Lit LF]) (nl1 @ m @ nl2 @ post)"
      unfolding re_match_line_break by auto
    with b show ?L unfolding re_search_items_iff by blast
  qed
  then show ?thesis using assms by (simp add: scan_def re_parse_scan_pattern)
qed

lemma scan_marker_defined: "scan buffer (completion_marker digest command) \<noteq> None"
  using scan_literal [of "completion_marker digest command" buffer] completion_marker_word
  by auto

text \<open>
  Claim C1. For every buffer and every completion marker the code derives, the scan of
  the polling loop succeeds exactly when the buffer contains the marker with a line break
  (LF or CRLF) immediately before it and a line break (LF or CRLF) immediately after it.
  A marker that occurs only without these line breaks around it is not a match.
\<close>

theorem scan_iff_marker_on_own_line:
  "scan buffer (completion_marker digest command) =
     Some (\<exists>pre nl1 nl2 post. nl1 \<in> {[LF], [CR, LF]} \<and> nl2 \<in> {[LF], [CR, LF]}
             \<and> buffer = pre @ nl1 @ completion_marker digest command @ nl2 @ post)"
proof (rule scan_literal)
  show "\<forall>c \<in> set (completion_marker digest command). is_word_char c"
    using completion_marker_word by blast
qed

theorem scan_iff_marker_on_own_line_witness:
  "scan (''ok'' @ [CR, LF] @ completion_marker (\<lambda>c. replicate 16 0) ''ls'' @ [LF] @ ''$ '')
        (completion_marker (\<lambda>c. replicate 16 0) ''ls'') = Some True"
proof -
  let ?m = "completion_marker (\<lambda>c. replicate 16 0) ''ls''"
  have "''ok'' @ [CR, LF] @ ?m @ [LF] @ ''$ '' = ''ok'' @ [CR, LF] @ ?m @ [LF] @ ''$ ''
        \<and> [CR, LF] \<in> {[LF], [CR, LF]} \<and> [LF] \<in> {[LF], [CR, LF]}"
    by simp
  then have "\<exists>pre nl1 nl2 post. nl1 \<in> {[LF], [CR, LF]} \<and> nl2 \<in> {[LF], [CR, LF]}
      \<and> ''ok'' @ [CR, LF] @ ?m @ [LF] @ ''$ '' = pre @ nl1 @ ?m @ nl2 @ post"
    by blast
  then show ?thesis
    using scan_iff_marker_on_own_line
      [of "''ok'' @ [CR, LF] @ ?m @ [LF] @ ''$ ''" "\<lambda>c. replicate 16 0" "''ls''"]
    by simp
qed

section \<open>The polling loop\<close>

lemma accumulated_Suc: "accumulated env (Suc n) = accumulated env n @ received env n"
  by (simp add: accumulated_def)

lemma loop_events_Suc: "loop_events env client (Suc n) = loop_events env client n @ turn_events env client n"
  by (simp add: loop_events_def)

lemma poll_turn_continue:
  assumes "\<not> leaves env timeout marker i"
  shows "poll_turn env client timeout marker command i (accumulated env i) tr
         = Continue (accumulated env (Suc i)) (tr @ turn_events env client i)"
  using assms
  by (auto simp: leaves_def turn_raises_def recv_fails_def echo_fails_def detected_def timed_out_def
        poll_turn_def timeout_check_def accumulated_Suc received_def turn_events_def
        split: sum.splits option.splits)

lemma poll_turn_raise:
  assumes "turn_raises env i"
  shows "poll_turn env client timeout marker command i buffer tr
         = Raise (raised env i) (tr @ turn_events env client i)"
  using assms
  by (auto simp: turn_raises_def recv_fails_def echo_fails_def raised_def poll_turn_def
        turn_events_def split: sum.splits option.splits)

lemma poll_turn_detected:
  assumes "detected env marker i"
  shows "poll_turn env client timeout marker command i (accumulated env i) tr
         = Break (accumulated env (Suc i)) (tr @ turn_events env client i)"
  using assms
  by (auto simp: detected_def poll_turn_def accumulated_Suc received_def turn_events_def
        split: sum.splits option.splits)

lemma poll_turn_timed_out:
  assumes "\<not> turn_raises env i" "\<not> detected env marker i" "timed_out env timeout i"
  shows "poll_turn env client timeout marker command i (accumulated env i) tr
         = Break (accumulated env (Suc i))
             (tr @ turn_events env client i @ [timeout_warning command])"
  using assms
  by (auto simp: turn_raises_def recv_fails_def echo_fails_def detected_def timed_out_def
        poll_turn_def timeout_check_def accumulated_Suc received_def turn_events_def
        timeout_warning_def split: sum.splits option.splits)

lemma poll_skip:
  assumes "\<forall>j<k. \<not> leaves env timeout marker j"
  shows "poll env client timeout marker command 0 [] tr
         = poll env client timeout marker command k (accumulated env k) (tr @ loop_events env client k)"
  using assms
proof (induction k)
  case 0
  show ?case by (simp add: accumulated_def loop_events_def)
next
  case (Suc k)
  then have "\<not> leaves env timeout marker k" by simp
  then have "poll env client timeout marker command k (accumulated env k) (tr @ loop_events env client k)
        = poll env client timeout marker command (Suc k) (accumulated env (Suc k))
            (tr @ loop_events env client (Suc k))"
    by (subst poll.simps) (simp add: poll_turn_continue loop_events_Suc)
  with Suc show ?case by simp
qed

lemma poll_diverges_from:
  assumes "poll env client timeout marker command i buffer tr = Some r"
  shows "buffer = accumulated env i \<longrightarrow> (\<exists>k\<ge>i. leaves env timeout marker k)"
  using assms
proof (induction env client timeout marker command i buffer tr r rule: poll.raw_induct [rotated 1, consumes 1])
  case (1 poll' env client timeout marker command i buffer tr r)
  show ?case
  proof
    assume b: "buffer = accumulated env i"
    show "\<exists>k\<ge>i. leaves env timeout marker k"
    proof (cases "leaves env timeout marker i")
      case True then show ?thesis by blast
    next
      case False
      then have "poll' env client timeout marker command (Suc i) (accumulated env (Suc i))
                   (tr @ turn_events env client i) = Some r"
        using 1(2) b by (simp add: poll_turn_continue)
      then have "\<exists>k\<ge>Suc i. leaves env timeout marker k" using 1(1) by blast
      then show ?thesis using Suc_leD by blast
    qed
  qed
qed


lemma poll_exit:
  assumes "\<forall>j<k. \<not> leaves env timeout marker j" "leaves env timeout marker k"
  shows "poll env client timeout marker command 0 [] tr
         = Some (exit_result env client timeout marker command k tr)"
proof -
  let ?tr = "tr @ loop_events env client k"
  have "poll env client timeout marker command k (accumulated env k) ?tr
        = Some (exit_result env client timeout marker command k tr)"
  proof (cases "turn_raises env k")
    case True
    then show ?thesis
      by (subst poll.simps) (simp add: poll_turn_raise exit_result_def loop_events_Suc)
  next
    case False
    show ?thesis
    proof (cases "detected env marker k")
      case True
      then show ?thesis using False
        by (subst poll.simps) (simp add: poll_turn_detected exit_result_def loop_events_Suc)
    next
      case nd: False
      then have "timed_out env timeout k" using False assms(2) by (simp add: leaves_def)
      then show ?thesis using False nd
        by (subst poll.simps) (simp add: poll_turn_timed_out exit_result_def loop_events_Suc)
    qed
  qed
  then show ?thesis using poll_skip [OF assms(1)] by simp
qed

lemma poll_returns_iff:
  "poll env client timeout marker command 0 [] tr \<noteq> None \<longleftrightarrow> (\<exists>k. leaves env timeout marker k)"
proof
  assume "poll env client timeout marker command 0 [] tr \<noteq> None"
  then obtain r where "poll env client timeout marker command 0 [] tr = Some r" by blast
  from poll_diverges_from [OF this] show "\<exists>k. leaves env timeout marker k"
    by (auto simp: accumulated_def)
next
  assume "\<exists>k. leaves env timeout marker k"
  then obtain k where k: "leaves env timeout marker k" ..
  define m where "m = (LEAST j. leaves env timeout marker j)"
  have "leaves env timeout marker m" unfolding m_def using k by (rule LeastI)
  moreover have "\<forall>j<m. \<not> leaves env timeout marker j"
    unfolding m_def using not_less_Least by blast
  ultimately show "poll env client timeout marker command 0 [] tr \<noteq> None"
    using poll_exit by simp
qed

lemma poll_result:
  assumes "poll env client timeout marker command 0 [] tr = Some r"
  shows "\<exists>k. (\<forall>j<k. \<not> leaves env timeout marker j) \<and> leaves env timeout marker k
             \<and> r = exit_result env client timeout marker command k tr"
proof -
  from assms have "\<exists>k. leaves env timeout marker k" using poll_returns_iff by blast
  then obtain k where k: "leaves env timeout marker k" ..
  define m where "m = (LEAST j. leaves env timeout marker j)"
  have 1: "leaves env timeout marker m" unfolding m_def using k by (rule LeastI)
  have 2: "\<forall>j<m. \<not> leaves env timeout marker j"
    unfolding m_def using not_less_Least by blast
  from poll_exit [OF 2 1] assms have "r = exit_result env client timeout marker command m tr"
    by simp
  with 1 2 show ?thesis by blast
qed

section \<open>The driver up to the loop\<close>

lemma next_client_append: "next_client (tr @ evs) = next_client tr + next_client evs"
  by (simp add: next_client_def)

lemma run_single_probe_ok:
  assumes "connect_raises env (next_client tr) = None" "exec_result env c = Inr (out, err)"
  shows "run_single env self c t p tr
         = (Inr \<lparr>stdout = out, stderr = err\<rparr>,
            tr @ [ConnectCall (next_client tr) (public_ip_address (instance_info self)) (user self) (key_filename self),
                  Connected (next_client tr), ExecCommand (next_client tr) c t p])"
  using assms by (simp add: run_single_def connect_def Let_def)

lemma setup_reaches:
  assumes "setup_ok env tr"
  shows "run_in_screen env self command detach timeout terminate tr
         = (case detach_or_poll env command detach timeout (Suc (next_client tr))
                   (tr @ setup_events env self command terminate (next_client tr)) of
              None \<Rightarrow> None
            | Some (Inl e, tr') \<Rightarrow> Some (Inl e, tr' @ [Close (Suc (next_client tr))])
            | Some (Inr buffer, tr') \<Rightarrow>
                Some (Inr \<lparr>stdout = buffer, stderr = buffer\<rparr>, tr' @ [Close (Suc (next_client tr))]))"
proof -
  from assms obtain out err where p: "exec_result env ''which screen'' = Inr (out, err)"
    "sublist ''screen'' out"
    by (auto simp: setup_ok_def split: sum.splits)
  define n where "n = next_client tr"
  define tr0 where "tr0 = tr @ [ConnectCall n (public_ip_address (instance_info self)) (user self) (key_filename self),
                  Connected n, ExecCommand n ''which screen'' None False]"
  define tr1 where "tr1 = tr0 @ [ConnectCall (Suc n) (public_ip_address (instance_info self)) (user self) (key_filename self),
                  Connected (Suc n)]"
  define tr2 where "tr2 = tr1 @ [LogInfo (''Connected to '' @ public_ip_address (instance_info self)),
      InvokeShell (Suc n),
      ResizePty (Suc n) (fst (terminal_size env)) (snd (terminal_size env)),
      Send (Suc n)
        (''screen -S '' @ screen_name (md5 env) (fmt_time env) command (name_time env) @ [LF])]"
  define tr3 where "tr3 = tr2 @ [Send (Suc n) (injection command (completion_marker (md5 env) command) terminate),
      Send (Suc n) [LF]]"
  define D where "D = detach_or_poll env command detach timeout (Suc n) tr3"
  have 0: "run_single env self ''which screen'' None False tr = (Inr \<lparr>stdout = out, stderr = err\<rparr>, tr0)"
    unfolding tr0_def n_def using assms p by (intro run_single_probe_ok) (auto simp: setup_ok_def)
  have n0: "next_client tr0 = Suc n" by (simp add: next_client_def tr0_def n_def)
  have 1: "connect env self tr0 = (Inr (Suc n), tr1)"
    using assms n0 by (simp add: connect_def Let_def setup_ok_def tr1_def n_def)
  have 2: "start_screen env self command (Suc n) tr1 = (None, tr2)"
    using assms by (simp add: start_screen_def shell_def send_def setup_ok_def tr2_def split: prod.splits)
  have 3: "inject env command terminate (Suc n) tr2 = (None, tr3)"
    using assms by (simp add: inject_def send_def setup_ok_def tr3_def)
  have 4: "tr3 = tr @ setup_events env self command terminate n"
    by (simp add: setup_events_def tr3_def tr2_def tr1_def tr0_def)
  have 5: "in_screen env self command detach timeout terminate (Suc n) tr1
        = (case D of
                  None \<Rightarrow> None
                | Some (Inl e, t) \<Rightarrow> Some (Inl e, t)
                | Some (Inr buffer, t) \<Rightarrow>
                    Some (Inr \<lparr>stdout = buffer, stderr = buffer\<rparr>, t @ [Close (Suc n)]))"
    by (simp add: in_screen_def 2 3 D_def)
  have "run_in_screen env self command detach timeout terminate tr
    = (case D of
              None \<Rightarrow> None
            | Some (Inl e, tr') \<Rightarrow> Some (Inl e, tr' @ [Close (Suc n)])
            | Some (Inr buffer, tr') \<Rightarrow>
                Some (Inr \<lparr>stdout = buffer, stderr = buffer\<rparr>, tr' @ [Close (Suc n)]))"
    using p(2) by (simp add: run_in_screen_def 0 1 5 split: option.splits sum.splits)
  then show ?thesis unfolding D_def 4 n_def .
qed

lemma run_single_cases:
  "run_single env self c t p tr =
     (case connect_raises env (next_client tr) of
        Some e \<Rightarrow> (Inl (External e),
                   tr @ [ConnectCall (next_client tr) (public_ip_address (instance_info self)) (user self) (key_filename self)])
      | None \<Rightarrow>
         (case exec_result env c of
            Inl e \<Rightarrow> (Inl (External e),
                   tr @ [ConnectCall (next_client tr) (public_ip_address (instance_info self)) (user self) (key_filename self),
                         Connected (next_client tr), ExecCommand (next_client tr) c t p])
          | Inr (out, err) \<Rightarrow> (Inr \<lparr>stdout = out, stderr = err\<rparr>,
                   tr @ [ConnectCall (next_client tr) (public_ip_address (instance_info self)) (user self) (key_filename self),
                         Connected (next_client tr), ExecCommand (next_client tr) c t p])))"
  by (simp add: run_single_def connect_def Let_def split: option.splits sum.splits)

lemma start_screen_None:
  "start_screen env self command client tr = (None, t) \<Longrightarrow>
     invoke_shell_raises env = None \<and> resize_pty_raises env = None \<and> send_raises env 0 = None"
  by (auto simp: start_screen_def shell_def send_def split: prod.splits option.splits)

lemma inject_None:
  "inject env command terminate client tr = (None, t) \<Longrightarrow>
     send_raises env 1 = None \<and> send_raises env 2 = None"
  by (auto simp: inject_def send_def split: prod.splits option.splits)

lemma in_screen_Inr:
  assumes "in_screen env self command detach timeout terminate client tr = Some (Inr content, t)"
  shows "invoke_shell_raises env = None \<and> resize_pty_raises env = None
         \<and> send_raises env 0 = None \<and> send_raises env 1 = None \<and> send_raises env 2 = None"
proof -
  from assms obtain t1 where 1: "start_screen env self command client tr = (None, t1)"
    by (auto simp: in_screen_def split: prod.splits option.splits)
  with assms obtain t2 where 2: "inject env command terminate client t1 = (None, t2)"
    by (auto simp: in_screen_def split: prod.splits option.splits)
  from start_screen_None [OF 1] inject_None [OF 2] show ?thesis by simp
qed

lemma returns_setup_ok:
  assumes "run_in_screen env self command detach timeout terminate tr = Some (Inr content, tr')"
  shows "setup_ok env tr"
proof -
  obtain r t0 where rs: "run_single env self ''which screen'' None False tr = (r, t0)"
    by (cases "run_single env self ''which screen'' None False tr")
  with assms obtain probe where r: "r = Inr probe" "sublist ''screen'' (stdout probe)"
    by (cases r) (auto simp: run_in_screen_def split: if_splits)
  from rs r have c0: "connect_raises env (next_client tr) = None"
    and ex: "\<exists>out err. exec_result env ''which screen'' = Inr (out, err) \<and> probe = \<lparr>stdout = out, stderr = err\<rparr>"
    and t0: "next_client t0 = Suc (next_client tr)"
    unfolding run_single_cases by (auto split: option.splits sum.splits simp: next_client_def)
  obtain rc t1 where cn: "connect env self t0 = (rc, t1)" by (cases "connect env self t0")
  with assms rs r obtain client where rc: "rc = Inr client"
    by (cases rc) (auto simp: run_in_screen_def)
  from cn rc t0 have c1: "connect_raises env (Suc (next_client tr)) = None"
    by (auto simp: connect_def Let_def split: option.splits)
  from assms rs r cn rc obtain t2 where
    "in_screen env self command detach timeout terminate client t1 = Some (Inr content, t2)"
    by (auto simp: run_in_screen_def split: option.splits sum.splits)
  from in_screen_Inr [OF this] c0 c1 ex r(2) show ?thesis
    by (auto simp: setup_ok_def)
qed

section \<open>The model on the scripts\<close>

lemma zero_digest_hash: "command_hash (\<lambda>c. replicate 16 0) command = ''000000000000''"
proof -
  have "hex_byte 0 = ''00''" by (simp add: hex_byte_def hex_digit_def)
  then have "hexdigest (replicate 16 0) = concat (replicate 16 ''00'')"
    by (simp add: hexdigest_def)
  also have "\<dots> = ''00000000000000000000000000000000''"
    by (simp add: numeral_eq_Suc)
  finally show ?thesis by (simp add: command_hash_def)
qed

lemma zero_digest_marker:
  "completion_marker (\<lambda>c. replicate 16 0) command = ''CMD_COMPLETED_000000000000''"
  by (simp add: completion_marker_def zero_digest_hash)

lemma sublist_which_screen: "sublist ''screen'' (''/usr/bin/screen'' @ [LF])"
proof -
  have "''/usr/bin/screen'' @ [LF] = ''/usr/bin/'' @ ''screen'' @ [LF]" by simp
  then show ?thesis unfolding sublist_def by blast
qed

lemma setup_ok_quiet: "setup_ok quiet_remote tr"
  using sublist_which_screen by (simp add: setup_ok_def quiet_remote_def)

lemma setup_ok_done: "setup_ok done_remote tr"
  using sublist_which_screen by (simp add: setup_ok_def quiet_remote_def done_remote_def)

lemma setup_ok_prompt: "setup_ok prompt_remote tr"
  using sublist_which_screen by (simp add: setup_ok_def quiet_remote_def prompt_remote_def)

lemma quiet_detach_run:
  "run_in_screen quiet_remote demo_session ''ls'' True None True []
   = Some (Inr \<lparr>stdout = [], stderr = []\<rparr>,
           setup_events quiet_remote demo_session ''ls'' True 0 @ [Send 1 [SOH, CHR ''d''], Close 1])"
  using setup_reaches [OF setup_ok_quiet, where tr = "[]" and self = demo_session
      and command = "''ls''" and detach = True and timeout = None and terminate = True]
  by (simp add: detach_or_poll_def send_def next_client_def quiet_remote_def)

lemma md5_done: "md5 done_remote = (\<lambda>c. replicate 16 0)"
  by (simp add: done_remote_def quiet_remote_def)

lemma done_detected: "detected done_remote (completion_marker (md5 done_remote) command) 0"
proof -
  let ?m = "completion_marker (md5 done_remote) command"
  have a: "accumulated done_remote (Suc 0) = ''hello'' @ [CR, LF] @ ?m @ [CR, LF] @ []"
    by (simp add: accumulated_def received_def done_remote_def quiet_remote_def zero_digest_marker)
  have "\<exists>pre nl1 nl2 post. nl1 \<in> {[LF], [CR, LF]} \<and> nl2 \<in> {[LF], [CR, LF]}
      \<and> accumulated done_remote (Suc 0) = pre @ nl1 @ ?m @ nl2 @ post"
    unfolding a by blast
  moreover have "\<forall>c \<in> set ?m. is_word_char c" using completion_marker_word by blast
  ultimately have "scan (accumulated done_remote (Suc 0)) ?m = Some True"
    using scan_literal [of ?m "accumulated done_remote (Suc 0)"] by simp
  then show ?thesis by (simp add: detected_def done_remote_def quiet_remote_def)
qed

lemma done_run:
  "run_in_screen done_remote demo_session ''ls'' False None True []
   = Some (Inr \<lparr>stdout = accumulated done_remote 1, stderr = accumulated done_remote 1\<rparr>,
           setup_events done_remote demo_session ''ls'' True 0 @ loop_events done_remote 1 1 @ [Close 1])"
proof -
  have l: "leaves done_remote None (completion_marker (md5 done_remote) ''ls'') 0"
    using done_detected by (simp add: leaves_def)
  have nf: "\<not> turn_raises done_remote 0"
    by (simp add: turn_raises_def recv_fails_def echo_fails_def done_remote_def quiet_remote_def)
  have "poll done_remote 1 None (completion_marker (md5 done_remote) ''ls'') ''ls'' 0 []
          (setup_events done_remote demo_session ''ls'' True 0)
        = Some (Inr (accumulated done_remote 1),
                setup_events done_remote demo_session ''ls'' True 0 @ loop_events done_remote 1 1)"
    using poll_exit [of 0 done_remote None "completion_marker (md5 done_remote) ''ls''", OF _ l]
      nf done_detected
    by (simp add: exit_result_def)
  then show ?thesis
    using setup_reaches [OF setup_ok_done, where tr = "[]" and self = demo_session
      and command = "''ls''" and detach = False and timeout = None and terminate = True]
    by (simp add: detach_or_poll_def next_client_def)
qed


section \<open>Runs that return\<close>




lemma closes_append: "closes (xs @ ys) c = closes xs c + closes ys c"
  by (simp add: closes_def)

lemma closes_loop_events: "closes (loop_events env client n) c = 0"
proof (induction n)
  case 0 show ?case by (simp add: loop_events_def closes_def)
next
  case (Suc n)
  have "closes (turn_events env client n) c = 0"
    by (simp add: turn_events_def closes_def split: sum.splits)
  with Suc show ?case by (simp add: loop_events_Suc closes_append)
qed

lemma closes_setup_events: "closes (setup_events env self command terminate n) c = 0"
  by (simp add: setup_events_def closes_def)

text \<open>The results of the loop that carry a buffer.\<close>

lemma exit_result_Inr:
  assumes "exit_result env client timeout marker command k tr = (Inr b, t)"
  shows "b = accumulated env (Suc k)
         \<and> (t = tr @ loop_events env client (Suc k)
            \<or> t = tr @ loop_events env client (Suc k) @ [timeout_warning command])"
  using assms by (auto simp: exit_result_def split: if_splits)

lemma raised_External: "\<exists>x. raised env k = External x"
  by (simp add: raised_def split: sum.splits)

lemma exit_result_Inl:
  assumes "exit_result env client timeout marker command k tr = (Inl e, t)"
  shows "(\<exists>x. e = External x) \<and> t = tr @ loop_events env client (Suc k)"
proof -
  from assms have "e = raised env k" "t = tr @ loop_events env client (Suc k)"
    by (auto simp: exit_result_def split: if_splits)
  with raised_External [of env k] show ?thesis by metis
qed

lemma echoed_append: "echoed (xs @ ys) = echoed xs @ echoed ys"
  by (induction xs rule: echoed.induct) simp_all

lemma echoed_turn_events: "echoed (turn_events env client i) = received env i"
  by (simp add: turn_events_def received_def split: sum.splits)

lemma echoed_loop_events: "echoed (loop_events env client n) = accumulated env n"
proof (induction n)
  case 0
  show ?case by (simp add: loop_events_def accumulated_def)
next
  case (Suc n)
  then show ?case
    by (simp add: loop_events_Suc accumulated_Suc echoed_append echoed_turn_events)
qed

lemma echoed_setup_events: "echoed (setup_events env self command terminate n) = []"
  by (simp add: setup_events_def)

lemma detach_or_poll_Inr:
  assumes "detach_or_poll env command detach timeout client tr = Some (Inr b, t)"
  shows "if detach then b = [] \<and> t = tr @ [Send client [SOH, CHR ''d'']]
         else \<exists>k. b = accumulated env (Suc k)
            \<and> (t = tr @ loop_events env client (Suc k)
              \<or> t = tr @ loop_events env client (Suc k) @ [timeout_warning command])"
proof (cases detach)
  case True
  with assms show ?thesis
    by (auto simp: detach_or_poll_def send_def split: option.splits)
next
  case False
  with assms have "poll env client timeout (completion_marker (md5 env) command) command 0 [] tr
      = Some (Inr b, t)"
    by (simp add: detach_or_poll_def)
  from poll_result [OF this] obtain k where
    "exit_result env client timeout (completion_marker (md5 env) command) command k tr = (Inr b, t)"
    by metis
  from exit_result_Inr [OF this] False show ?thesis by auto
qed

lemma returns_shape:
  assumes "run_in_screen env self command detach timeout terminate tr = Some (Inr content, tr')"
  shows "\<exists>b t. detach_or_poll env command detach timeout (Suc (next_client tr))
                 (tr @ setup_events env self command terminate (next_client tr)) = Some (Inr b, t)
          \<and> content = \<lparr>stdout = b, stderr = b\<rparr> \<and> tr' = t @ [Close (Suc (next_client tr))]"
  using assms setup_reaches [OF returns_setup_ok [OF assms], of self command detach timeout terminate]
  by (auto split: option.splits sum.splits)

text \<open>
  Claim C9. Every run of the screen driver that returns normally (after a marker match,
  a timeout or a detach) returns a content whose \<open>stdout\<close> and \<open>stderr\<close> are the same
  text: the one buffer accumulated from the reads of the channel. It is the text of all
  the chunks the run read and echoed, in order: empty after a detach, and after polling
  the output accumulated through the turn \<open>k\<close> that left the loop, whose reads are the
  reads of the trace.
\<close>

theorem screen_output_is_one_buffer:
  assumes "run_in_screen env self command detach timeout terminate tr = Some (Inr content, tr')"
  shows "stdout content = stderr content
         \<and> (\<exists>evs. tr' = tr @ evs \<and> stdout content = echoed evs)
         \<and> (if detach then stdout content = []
            else \<exists>k w. stdout content = accumulated env (Suc k)
                   \<and> (w = [] \<or> w = [timeout_warning command])
                   \<and> tr' = tr @ setup_events env self command terminate (next_client tr)
                            @ loop_events env (Suc (next_client tr)) (Suc k)
                            @ w @ [Close (Suc (next_client tr))])"
proof -
  let ?c = "Suc (next_client tr)"
  let ?s = "setup_events env self command terminate (next_client tr)"
  from returns_shape [OF assms] obtain b t where
    d: "detach_or_poll env command detach timeout ?c (tr @ ?s) = Some (Inr b, t)"
    and c: "content = \<lparr>stdout = b, stderr = b\<rparr>"
    and t: "tr' = t @ [Close ?c]" by blast
  show ?thesis
  proof (cases detach)
    case True
    with detach_or_poll_Inr [OF d] have b: "b = []"
      and t': "t = (tr @ ?s) @ [Send ?c [SOH, CHR ''d'']]" by simp_all
    have "tr' = tr @ (?s @ [Send ?c [SOH, CHR ''d''], Close ?c])" unfolding t t' by simp
    moreover have "echoed (?s @ [Send ?c [SOH, CHR ''d''], Close ?c]) = []"
      by (simp add: echoed_append echoed_setup_events)
    ultimately have "\<exists>evs. tr' = tr @ evs \<and> stdout content = echoed evs"
      using b c by auto
    with True b c show ?thesis by simp
  next
    case False
    with detach_or_poll_Inr [OF d] obtain k where b: "b = accumulated env (Suc k)"
      and "t = (tr @ ?s) @ loop_events env ?c (Suc k)
           \<or> t = (tr @ ?s) @ loop_events env ?c (Suc k) @ [timeout_warning command]"
      by auto
    then obtain w where w: "w = [] \<or> w = [timeout_warning command]"
      and t': "t = (tr @ ?s) @ loop_events env ?c (Suc k) @ w" by auto
    have 1: "tr' = tr @ ?s @ loop_events env ?c (Suc k) @ w @ [Close ?c]"
      unfolding t t' by simp
    have "echoed (?s @ loop_events env ?c (Suc k) @ w @ [Close ?c]) = accumulated env (Suc k)"
      using w by (auto simp: echoed_append echoed_setup_events echoed_loop_events timeout_warning_def)
    with 1 b c have 2: "\<exists>evs. tr' = tr @ evs \<and> stdout content = echoed evs" by auto
    from b c w 1 have "\<exists>k w. stdout content = accumulated env (Suc k)
                   \<and> (w = [] \<or> w = [timeout_warning command])
                   \<and> tr' = tr @ ?s @ loop_events env ?c (Suc k) @ w @ [Close ?c]"
      by auto
    with False 2 c show ?thesis by simp
  qed
qed

lemma done_accumulated:
  "accumulated done_remote 1 = ''hello'' @ [CR, LF] @ ''CMD_COMPLETED_000000000000'' @ [CR, LF]"
  by (simp add: accumulated_def received_def done_remote_def quiet_remote_def)

theorem screen_output_is_one_buffer_witness:
  "run_in_screen done_remote demo_session ''ls'' False None True []
   = Some (Inr \<lparr>stdout = accumulated done_remote 1, stderr = accumulated done_remote 1\<rparr>,
           setup_events done_remote demo_session ''ls'' True 0 @ loop_events done_remote 1 1 @ [Close 1])
   \<and> accumulated done_remote 1
       = echoed (setup_events done_remote demo_session ''ls'' True 0 @ loop_events done_remote 1 1 @ [Close 1])
   \<and> accumulated done_remote 1 = ''hello'' @ [CR, LF] @ ''CMD_COMPLETED_000000000000'' @ [CR, LF]"
proof -
  from screen_output_is_one_buffer [OF done_run]
  have "\<exists>evs. setup_events done_remote demo_session ''ls'' True 0 @ loop_events done_remote 1 1 @ [Close 1]
          = [] @ evs \<and> accumulated done_remote 1 = echoed evs"
    by simp
  then have "accumulated done_remote 1
       = echoed (setup_events done_remote demo_session ''ls'' True 0 @ loop_events done_remote 1 1 @ [Close 1])"
    by auto
  with done_run done_accumulated show ?thesis by blast
qed





section \<open>When the loop ends\<close>

lemma timed_out_iff:
  "timed_out env timeout i \<longleftrightarrow> (\<exists>t. timeout = Some t \<and> t \<noteq> 0 \<and> now env i - start_time env > of_int t)"
  by (cases timeout) (auto simp: timed_out_def truthy_def)

lemma scan_needs_LF:
  assumes "scan buffer (completion_marker digest command) = Some True"
  shows "LF \<in> set buffer"
proof -
  have "\<forall>c \<in> set (completion_marker digest command). is_word_char c"
    using completion_marker_word by blast
  from scan_literal [OF this, of buffer] assms
  obtain pre nl1 nl2 post where "nl1 \<in> {[LF], [CR, LF]}"
    "buffer = pre @ nl1 @ completion_marker digest command @ nl2 @ post"
    by auto
  then show ?thesis by auto
qed

lemma set_accumulated: "set (accumulated env n) = (\<Union>i<n. set (received env i))"
  by (auto simp: accumulated_def)

lemma detected_appears:
  assumes "\<forall>i. \<not> turn_raises env i"
  shows "(\<exists>i. detected env (completion_marker digest command) i)
         \<longleftrightarrow> (\<exists>n. scan (accumulated env n) (completion_marker digest command) = Some True)"
proof
  let ?m = "completion_marker digest command"
  assume "\<exists>i. detected env ?m i"
  then show "\<exists>n. scan (accumulated env n) ?m = Some True" by (auto simp: detected_def)
next
  let ?m = "completion_marker digest command"
  assume "\<exists>n. scan (accumulated env n) ?m = Some True"
  then obtain n where n: "scan (accumulated env n) ?m = Some True" ..
  define k where "k = (LEAST n. scan (accumulated env n) ?m = Some True)"
  have k: "scan (accumulated env k) ?m = Some True"
    unfolding k_def using n by (rule LeastI)
  have least: "\<forall>j<k. scan (accumulated env j) ?m \<noteq> Some True"
    unfolding k_def using not_less_Least by blast
  have "k \<noteq> 0"
  proof
    assume "k = 0"
    with k have "scan [] ?m = Some True" by (simp add: accumulated_def)
    from scan_needs_LF [OF this] show False by simp
  qed
  then obtain i where i: "k = Suc i" by (cases k) auto
  with least have "scan (accumulated env i) ?m \<noteq> Some True" by simp
  with k i have "received env i \<noteq> []" by (auto simp: accumulated_Suc)
  then have r: "recv_ready env i" "\<not> isl (recv env i)"
    by (auto simp: received_def split: if_splits sum.splits)
  with assms have "stdout_raises env i = None"
    by (auto simp: turn_raises_def echo_fails_def)
  with r k i have "detected env ?m i" by (simp add: detected_def)
  then show "\<exists>i. detected env ?m i" ..
qed

text \<open>
  Claim C8. The loop body raising is a transition of its own; leaving it aside (no read
  and no echo of a turn raises), the polling loop, started as the driver starts it, ends
  exactly when the completion marker appears line-bounded in the accumulated output or a
  timeout is configured (a value Python takes for true: neither \<^verbatim>\<open>None\<close> nor 0) and the
  elapsed time of some turn exceeds it. It then ends without raising. With no timeout
  configured and the marker never in the accumulated output, the loop runs forever.
\<close>

theorem polling_ends_iff:
  assumes "\<forall>i. \<not> turn_raises env i"
  shows "(poll env client timeout (completion_marker (md5 env) command) command 0 [] tr \<noteq> None \<longleftrightarrow>
            (\<exists>n. scan (accumulated env n) (completion_marker (md5 env) command) = Some True)
            \<or> (\<exists>t. timeout = Some t \<and> t \<noteq> 0 \<and> (\<exists>i. now env i - start_time env > of_int t)))
         \<and> (\<forall>r t. poll env client timeout (completion_marker (md5 env) command) command 0 [] tr
                     = Some (r, t) \<longrightarrow> (\<exists>b. r = Inr b))
         \<and> ((timeout = None \<or> timeout = Some 0)
              \<and> (\<forall>n. scan (accumulated env n) (completion_marker (md5 env) command) \<noteq> Some True)
            \<longrightarrow> poll env client timeout (completion_marker (md5 env) command) command 0 [] tr = None)"
proof -
  let ?m = "completion_marker (md5 env) command"
  let ?p = "poll env client timeout ?m command 0 [] tr"
  have "?p \<noteq> None \<longleftrightarrow> (\<exists>k. leaves env timeout ?m k)"
    by (rule poll_returns_iff)
  also have "\<dots> \<longleftrightarrow> (\<exists>i. detected env ?m i) \<or> (\<exists>i. timed_out env timeout i)"
    unfolding leaves_def using assms by blast
  also have "\<dots> \<longleftrightarrow> (\<exists>n. scan (accumulated env n) ?m = Some True) \<or> (\<exists>i. timed_out env timeout i)"
    unfolding detected_appears [OF assms] ..
  also have "(\<exists>i. timed_out env timeout i)
      \<longleftrightarrow> (\<exists>t. timeout = Some t \<and> t \<noteq> 0 \<and> (\<exists>i. now env i - start_time env > of_int t))"
    unfolding timed_out_iff by blast
  finally have 1: "?p \<noteq> None \<longleftrightarrow>
            (\<exists>n. scan (accumulated env n) ?m = Some True)
            \<or> (\<exists>t. timeout = Some t \<and> t \<noteq> 0 \<and> (\<exists>i. now env i - start_time env > of_int t))" .
  have 2: "\<exists>b. r = Inr b" if "?p = Some (r, t)" for r t
  proof -
    from poll_result [OF that] obtain k where
      "(r, t) = exit_result env client timeout ?m command k tr" by blast
    with assms show ?thesis by (auto simp: exit_result_def split: if_splits)
  qed
  have 3: "?p = None"
    if "timeout = None \<or> timeout = Some 0" "\<forall>n. scan (accumulated env n) ?m \<noteq> Some True"
    using 1 that by auto
  from 1 2 3 show ?thesis by blast
qed

lemma quiet_accumulated: "accumulated quiet_remote n = []"
  by (simp add: accumulated_def received_def quiet_remote_def)

lemma quiet_never_raises: "\<forall>i. \<not> turn_raises quiet_remote i"
  by (simp add: turn_raises_def recv_fails_def echo_fails_def quiet_remote_def)

lemma done_never_raises: "\<forall>i. \<not> turn_raises done_remote i"
  by (simp add: turn_raises_def recv_fails_def echo_fails_def done_remote_def quiet_remote_def)

theorem polling_ends_iff_witness:
  "poll done_remote 1 None (completion_marker (md5 done_remote) ''ls'') ''ls'' 0 [] [] \<noteq> None
   \<and> poll quiet_remote 1 (Some 2) (completion_marker (md5 quiet_remote) ''ls'') ''ls'' 0 [] [] \<noteq> None
   \<and> poll quiet_remote 1 None (completion_marker (md5 quiet_remote) ''ls'') ''ls'' 0 [] [] = None
   \<and> poll quiet_remote 1 (Some 0) (completion_marker (md5 quiet_remote) ''ls'') ''ls'' 0 [] [] = None"
proof -
  have "scan (accumulated done_remote (Suc 0)) (completion_marker (md5 done_remote) ''ls'') = Some True"
    using done_detected [of "''ls''"] by (simp add: detected_def)
  then have "\<exists>n. scan (accumulated done_remote n) (completion_marker (md5 done_remote) ''ls'') = Some True" ..
  with polling_ends_iff [OF done_never_raises, of 1 None "''ls''" "[]"]
  have a: "poll done_remote 1 None (completion_marker (md5 done_remote) ''ls'') ''ls'' 0 [] [] \<noteq> None"
    by blast
  have "now quiet_remote 3 - start_time quiet_remote > of_int 2" by (simp add: quiet_remote_def)
  then have "\<exists>t. Some (2::int) = Some t \<and> t \<noteq> 0
      \<and> (\<exists>i. now quiet_remote i - start_time quiet_remote > of_int t)" by auto
  with polling_ends_iff [OF quiet_never_raises, of 1 "Some 2" "''ls''" "[]"]
  have b: "poll quiet_remote 1 (Some 2) (completion_marker (md5 quiet_remote) ''ls'') ''ls'' 0 [] [] \<noteq> None"
    by blast
  have never: "\<forall>n. scan (accumulated quiet_remote n) (completion_marker (md5 quiet_remote) ''ls'') \<noteq> Some True"
    using scan_needs_LF by (fastforce simp: quiet_accumulated)
  with polling_ends_iff [OF quiet_never_raises, of 1 None "''ls''" "[]"]
  have c: "poll quiet_remote 1 None (completion_marker (md5 quiet_remote) ''ls'') ''ls'' 0 [] [] = None"
    by blast
  from never polling_ends_iff [OF quiet_never_raises, of 1 "Some 0" "''ls''" "[]"]
  have d: "poll quiet_remote 1 (Some 0) (completion_marker (md5 quiet_remote) ''ls'') ''ls'' 0 [] [] = None"
    by blast
  from a b c d show ?thesis by blast
qed

section \<open>The timeout outcome\<close>

text \<open>
  Claim C6. In a run without detach whose timeout is set (to a value Python takes for
  true), let turn \<open>k\<close> be the first whose clock exceeds the timeout, with no marker
  detected and no read or echo failed up to and including that turn. Then the run raises nothing:
  it returns the output accumulated so far as \<open>stdout\<close> and \<open>stderr\<close>, the warning is
  logged, and the connection of the run is closed once, as the last thing done.
\<close>

theorem timeout_returns_partial_buffer:
  assumes "setup_ok env tr" and "timeout = Some t" and "t \<noteq> 0"
    and "\<forall>j\<le>k. \<not> recv_fails env j \<and> \<not> echo_fails env j"
    and "\<forall>n\<le>Suc k. scan (accumulated env n) (completion_marker (md5 env) command) \<noteq> Some True"
    and "\<forall>j<k. \<not> now env j - start_time env > of_int t"
    and "now env k - start_time env > of_int t"
  shows "\<exists>evs. run_in_screen env self command False timeout terminate tr
           = Some (Inr \<lparr>stdout = accumulated env (Suc k), stderr = accumulated env (Suc k)\<rparr>, tr @ evs)
         \<and> timeout_warning command \<in> set evs
         \<and> closes evs (Suc (next_client tr)) = 1
         \<and> last evs = Close (Suc (next_client tr))"
proof -
  let ?m = "completion_marker (md5 env) command"
  let ?c = "Suc (next_client tr)"
  let ?s = "setup_events env self command terminate (next_client tr)"
  have nd: "\<not> detected env ?m j" if "j \<le> k" for j
    using assms(5) that by (auto simp: detected_def)
  have nt: "\<not> timed_out env timeout j" if "j < k" for j
    using assms(2,6) that by (simp add: timed_out_iff)
  have tk: "timed_out env timeout k"
    using assms(2,3,7) by (simp add: timed_out_iff)
  have before: "\<forall>j<k. \<not> leaves env timeout ?m j"
    using assms(4) nd nt by (simp add: leaves_def turn_raises_def)
  have at: "leaves env timeout ?m k" using tk by (simp add: leaves_def)
  have "exit_result env ?c timeout ?m command k (tr @ ?s)
        = (Inr (accumulated env (Suc k)),
           (tr @ ?s) @ loop_events env ?c (Suc k) @ [timeout_warning command])"
    using assms(4) nd [of k] by (simp add: exit_result_def turn_raises_def)
  with poll_exit [OF before at, of ?c command "tr @ ?s"]
  have p: "poll env ?c timeout ?m command 0 [] (tr @ ?s)
        = Some (Inr (accumulated env (Suc k)),
                (tr @ ?s) @ loop_events env ?c (Suc k) @ [timeout_warning command])"
    by simp
  define evs where "evs = ?s @ loop_events env ?c (Suc k) @ [timeout_warning command, Close ?c]"
  have r: "run_in_screen env self command False timeout terminate tr
           = Some (Inr \<lparr>stdout = accumulated env (Suc k), stderr = accumulated env (Suc k)\<rparr>, tr @ evs)"
    using setup_reaches [OF assms(1), of self command False timeout terminate] p
    by (simp add: detach_or_poll_def evs_def)
  have w: "timeout_warning command \<in> set evs" by (simp add: evs_def)
  have "closes [timeout_warning command, Close ?c] ?c = 1"
    by (simp add: closes_def timeout_warning_def)
  then have c: "closes evs ?c = 1"
    by (simp add: evs_def closes_append closes_setup_events closes_loop_events)
  have l: "last evs = Close ?c" by (simp add: evs_def)
  from r w c l show ?thesis by blast
qed

lemma prompt_accumulated: "set (accumulated prompt_remote n) \<subseteq> set ''$ ''"
proof -
  have "received prompt_remote i = (if i = 0 then ''$ '' else [])" for i
    by (simp add: received_def prompt_remote_def)
  then have "set (received prompt_remote i) \<subseteq> set ''$ ''" for i
    by (cases "i = 0") simp_all
  then show ?thesis unfolding set_accumulated by (intro UN_least)
qed

lemma prompt_accumulated_3: "accumulated prompt_remote (Suc (Suc (Suc 0))) = ''$ ''"
  by (simp add: accumulated_def received_def prompt_remote_def)

theorem timeout_returns_partial_buffer_witness:
  "\<exists>evs. run_in_screen prompt_remote demo_session ''sleep 9'' False (Some 1) True []
           = Some (Inr \<lparr>stdout = ''$ '', stderr = ''$ ''\<rparr>, [] @ evs)
         \<and> timeout_warning ''sleep 9'' \<in> set evs
         \<and> closes evs (Suc (next_client [])) = 1
         \<and> last evs = Close (Suc (next_client []))"
proof -
  have 1: "\<forall>j\<le>Suc (Suc 0). \<not> recv_fails prompt_remote j \<and> \<not> echo_fails prompt_remote j"
    by (simp add: recv_fails_def echo_fails_def prompt_remote_def quiet_remote_def)
  have 2: "\<forall>n\<le>Suc (Suc (Suc 0)). scan (accumulated prompt_remote n)
             (completion_marker (md5 prompt_remote) ''sleep 9'') \<noteq> Some True"
  proof (intro allI impI notI)
    fix n assume "scan (accumulated prompt_remote n)
             (completion_marker (md5 prompt_remote) ''sleep 9'') = Some True"
    from scan_needs_LF [OF this] prompt_accumulated [of n] show False
      by (auto simp: LF_def)
  qed
  have 3: "\<forall>j<Suc (Suc 0). \<not> now prompt_remote j - start_time prompt_remote > of_int 1"
    by (auto simp: prompt_remote_def quiet_remote_def less_Suc_eq)
  have 4: "now prompt_remote (Suc (Suc 0)) - start_time prompt_remote > of_int 1"
    by (simp add: prompt_remote_def quiet_remote_def)
  from timeout_returns_partial_buffer [OF setup_ok_prompt refl _ 1 2 3 4,
      where tr = "[]" and self = demo_session and terminate = True]
  show ?thesis by (simp add: prompt_accumulated_3)
qed

section \<open>Marker and session name\<close>

text \<open>
  Claim C5. The completion marker derived for a command depends on the command text
  alone: derived at any two clock readings it is the same. The session name carries the
  printed clock reading as well: two derivations for the same command have the same name
  exactly when the readings print alike, so with a printing that tells readings apart (as
  Python's conversion of a float to text does) different readings give different names.
\<close>

theorem marker_fixed_name_fresh:
  "snd (derive_marker digest fmt command t1) = snd (derive_marker digest fmt command t2)
   \<and> (fst (derive_marker digest fmt command t1) = fst (derive_marker digest fmt command t2)
        \<longleftrightarrow> fmt t1 = fmt t2)
   \<and> (inj fmt \<longrightarrow> t1 \<noteq> t2 \<longrightarrow>
        fst (derive_marker digest fmt command t1) \<noteq> fst (derive_marker digest fmt command t2))"
proof -
  have eq: "fst (derive_marker digest fmt command t1) = fst (derive_marker digest fmt command t2)
        \<longleftrightarrow> fmt t1 = fmt t2"
    by (simp add: derive_marker_def screen_name_def)
  moreover have "fmt t1 \<noteq> fmt t2" if "inj fmt" "t1 \<noteq> t2"
    using that by (auto dest: injD)
  ultimately show ?thesis by (simp add: derive_marker_def)
qed

theorem marker_fixed_name_fresh_witness:
  "snd (derive_marker (\<lambda>c. replicate 16 0) (\<lambda>n. replicate n (CHR ''7'')) ''ls'' (1::nat))
     = snd (derive_marker (\<lambda>c. replicate 16 0) (\<lambda>n. replicate n (CHR ''7'')) ''ls'' (2::nat))
   \<and> fst (derive_marker (\<lambda>c. replicate 16 0) (\<lambda>n. replicate n (CHR ''7'')) ''ls'' (1::nat))
     \<noteq> fst (derive_marker (\<lambda>c. replicate 16 0) (\<lambda>n. replicate n (CHR ''7'')) ''ls'' (2::nat))"
proof -
  have i: "inj (\<lambda>n::nat. replicate n (CHR ''7''))"
  proof (rule injI)
    fix x y :: nat
    assume "replicate x (CHR ''7'') = replicate y (CHR ''7'')"
    then have "length (replicate x (CHR ''7'')) = length (replicate y (CHR ''7''))" by simp
    then show "x = y" by simp
  qed
  have d: "(1::nat) \<noteq> 2" by simp
  from marker_fixed_name_fresh [of "\<lambda>c. replicate 16 0" "\<lambda>n. replicate n (CHR ''7'')" "''ls''" 1 2] i d
  show ?thesis by blast
qed

section \<open>Traces and exceptions of the stages\<close>

text \<open>Each stage extends the trace, and raises only what the other side raises.\<close>

lemma run_single_extends:
  assumes "run_single env self c t p tr = (r, t0)"
  shows "(\<exists>evs. t0 = tr @ ConnectCall (next_client tr) (public_ip_address (instance_info self))
                        (user self) (key_filename self) # evs
           \<and> (\<forall>e \<in> set evs. \<not> channel_event e))
         \<and> (\<forall>e. r = Inl e \<longrightarrow> (\<exists>x. e = External x))"
  using assms unfolding run_single_cases
  by (auto split: option.splits sum.splits)

lemma connect_extends:
  assumes "connect env self tr = (r, t)"
  shows "prefix tr t \<and> (\<forall>e. r = Inl e \<longrightarrow> (\<exists>x. e = External x))"
  using assms by (auto simp: connect_def Let_def split: option.splits)

lemma start_screen_extends:
  assumes "start_screen env self command client tr = (r, t)"
  shows "prefix tr t \<and> (\<forall>e. r = Some e \<longrightarrow> (\<exists>x. e = External x))"
  using assms
  by (auto simp: start_screen_def shell_def send_def split: prod.splits option.splits)

lemma inject_extends:
  assumes "inject env command terminate client tr = (r, t)"
  shows "prefix tr t \<and> (\<forall>e. r = Some e \<longrightarrow> (\<exists>x. e = External x))"
  using assms
  by (auto simp: inject_def send_def split: prod.splits option.splits)

lemma detach_or_poll_extends:
  assumes "detach_or_poll env command detach timeout client tr = Some (r, t)"
  shows "prefix tr t \<and> (\<forall>e. r = Inl e \<longrightarrow> (\<exists>x. e = External x))"
proof (cases detach)
  case True
  with assms show ?thesis
    by (auto simp: detach_or_poll_def send_def split: option.splits)
next
  case False
  with assms have "poll env client timeout (completion_marker (md5 env) command) command 0 [] tr
      = Some (r, t)"
    by (simp add: detach_or_poll_def)
  from poll_result [OF this] obtain k where
    k: "exit_result env client timeout (completion_marker (md5 env) command) command k tr = (r, t)"
    by metis
  show ?thesis
  proof (cases r)
    case (Inl x)
    with k have "exit_result env client timeout (completion_marker (md5 env) command) command k tr
        = (Inl x, t)" by simp
    from exit_result_Inl [OF this] Inl show ?thesis by auto
  next
    case (Inr b)
    with k have "exit_result env client timeout (completion_marker (md5 env) command) command k tr
        = (Inr b, t)" by simp
    from exit_result_Inr [OF this] Inr show ?thesis by auto
  qed
qed

lemma in_screen_extends:
  assumes "in_screen env self command detach timeout terminate client tr = Some (r, t)"
  shows "prefix tr t \<and> (\<forall>e. r = Inl e \<longrightarrow> (\<exists>x. e = External x))"
proof -
  obtain r1 t1 where 1: "start_screen env self command client tr = (r1, t1)"
    by (cases "start_screen env self command client tr")
  obtain r2 t2 where 2: "inject env command terminate client t1 = (r2, t2)"
    by (cases "inject env command terminate client t1")
  note s1 = start_screen_extends [OF 1] and s2 = inject_extends [OF 2]
  show ?thesis
  proof (cases r1)
    case (Some a)
    with assms 1 s1 show ?thesis by (auto simp: in_screen_def)
  next
    case n1: None
    show ?thesis
    proof (cases r2)
      case (Some a)
      with assms 1 2 n1 s1 s2 show ?thesis by (auto simp: in_screen_def)
    next
      case n2: None
      with assms 1 2 n1 obtain r3 t3 where
        3: "detach_or_poll env command detach timeout client t2 = Some (r3, t3)"
        and rt: "(\<forall>e. r = Inl e \<longrightarrow> r3 = Inl e) \<and> prefix t3 t"
        by (auto simp: in_screen_def split: option.splits sum.splits)
      from detach_or_poll_extends [OF 3] s1 s2 rt have "prefix tr t"
        by (meson prefix_order.order_trans)
      moreover from detach_or_poll_extends [OF 3] rt
      have "\<forall>e. r = Inl e \<longrightarrow> (\<exists>x. e = External x)" by blast
      ultimately show ?thesis by blast
    qed
  qed
qed

lemma run_in_screen_extends:
  assumes "run_single env self ''which screen'' None False tr = (r0, t0)"
    and "run_in_screen env self command detach timeout terminate tr = Some (r, t)"
  shows "prefix t0 t
         \<and> (\<forall>e. r = Inl e \<longrightarrow> (\<exists>x. e = External x)
                \<or> (e = RuntimeError ''screen is not installed; cannot run in screen''
                   \<and> (\<exists>probe. r0 = Inr probe \<and> \<not> sublist ''screen'' (stdout probe)) \<and> t = t0))"
proof (cases r0)
  case (Inl a)
  with assms run_single_extends [OF assms(1)] show ?thesis
    by (auto simp: run_in_screen_def)
next
  case (Inr probe)
  show ?thesis
  proof (cases "sublist ''screen'' (stdout probe)")
    case False
    with assms Inr show ?thesis by (auto simp: run_in_screen_def)
  next
    case True
    obtain rc t1 where c: "connect env self t0 = (rc, t1)" by (cases "connect env self t0")
    note ce = connect_extends [OF c]
    show ?thesis
    proof (cases rc)
      case (Inl a)
      with assms Inr True c ce show ?thesis by (auto simp: run_in_screen_def)
    next
      case (Inr client)
      with assms \<open>r0 = Inr probe\<close> True c obtain r2 t2 where
        i: "in_screen env self command detach timeout terminate client t1 = Some (r2, t2)"
        and rt: "(\<forall>e. r = Inl e \<longrightarrow> r2 = Inl e) \<and> prefix t2 t"
        by (auto simp: run_in_screen_def split: option.splits sum.splits)
      from in_screen_extends [OF i] ce rt have "prefix t0 t"
        by (meson prefix_order.order_trans)
      moreover from in_screen_extends [OF i] rt
      have "\<forall>e. r = Inl e \<longrightarrow> (\<exists>x. e = External x)" by blast
      ultimately show ?thesis by blast
    qed
  qed
qed

section \<open>The probe\<close>

text \<open>
  Claim C7. Every run of the screen driver starts with the one-shot probe
  \<^verbatim>\<open>which screen\<close>: the trace of the probe is a prefix of the trace of the run. Whether
  the tool is there is decided by the text \<^verbatim>\<open>screen\<close> occurring in the standard output of
  the probe: when it does not occur the run ends with the precondition error and the
  trace of the probe alone, which opens no shell channel and sends nothing; when it
  occurs the run never ends with that error.
\<close>

theorem probe_comes_first:
  assumes "run_single env self ''which screen'' None False tr = (r0, t0)"
  shows "(\<forall>r t. run_in_screen env self command detach timeout terminate tr = Some (r, t)
            \<longrightarrow> prefix t0 t)
       \<and> (\<forall>probe. r0 = Inr probe \<and> \<not> sublist ''screen'' (stdout probe) \<longrightarrow>
            run_in_screen env self command detach timeout terminate tr
              = Some (Inl (RuntimeError ''screen is not installed; cannot run in screen''), t0)
            \<and> (\<forall>e \<in> set (drop (length tr) t0). \<not> channel_event e))
       \<and> (\<forall>probe. r0 = Inr probe \<and> sublist ''screen'' (stdout probe) \<longrightarrow>
            (\<forall>m t. run_in_screen env self command detach timeout terminate tr
                     \<noteq> Some (Inl (RuntimeError m), t)))"
proof (intro conjI allI impI)
  fix r t
  assume "run_in_screen env self command detach timeout terminate tr = Some (r, t)"
  from run_in_screen_extends [OF assms this] show "prefix t0 t" by simp
next
  fix probe
  assume "r0 = Inr probe \<and> \<not> sublist ''screen'' (stdout probe)"
  with assms show "run_in_screen env self command detach timeout terminate tr
              = Some (Inl (RuntimeError ''screen is not installed; cannot run in screen''), t0)"
    by (simp add: run_in_screen_def)
next
  fix probe
  assume "r0 = Inr probe \<and> \<not> sublist ''screen'' (stdout probe)"
  from run_single_extends [OF assms]
  show "\<forall>e \<in> set (drop (length tr) t0). \<not> channel_event e" by auto
next
  fix probe m t
  assume p: "r0 = Inr probe \<and> sublist ''screen'' (stdout probe)"
  show "run_in_screen env self command detach timeout terminate tr \<noteq> Some (Inl (RuntimeError m), t)"
  proof
    assume "run_in_screen env self command detach timeout terminate tr = Some (Inl (RuntimeError m), t)"
    from run_in_screen_extends [OF assms this] p show False by auto
  qed
qed

lemma bare_probe:
  "run_single bare_remote demo_session ''which screen'' None False []
   = (Inr \<lparr>stdout = [], stderr = ''which: no screen in (/usr/bin)''\<rparr>,
      [ConnectCall 0 ''10.0.0.7'' ''ec2-user'' None, Connected 0,
       ExecCommand 0 ''which screen'' None False])"
  unfolding run_single_cases
  by (simp add: bare_remote_def quiet_remote_def demo_session_def next_client_def key_filename_def)

theorem probe_comes_first_witness:
  "run_in_screen bare_remote demo_session ''ls'' False None True []
     = Some (Inl (RuntimeError ''screen is not installed; cannot run in screen''),
             [ConnectCall 0 ''10.0.0.7'' ''ec2-user'' None, Connected 0,
              ExecCommand 0 ''which screen'' None False])"
proof -
  have "\<not> sublist ''screen'' (stdout \<lparr>stdout = [], stderr = ''which: no screen in (/usr/bin)''\<rparr>)"
    by simp
  with probe_comes_first [OF bare_probe, of "''ls''" False None True] show ?thesis by blast
qed

section \<open>The facade\<close>

lemma detach_total: "run_in_screen env self command True timeout terminate tr \<noteq> None"
  by (auto simp: run_in_screen_def in_screen_def detach_or_poll_def
      split: prod.splits sum.splits option.splits)

text \<open>
  Claim C3. When the state of the instance is anything but \<open>RUNNING\<close>, \<open>run\<close> raises
  the not-running error and the trace is left as it was: no connection is attempted. When
  the state is \<open>RUNNING\<close>, \<open>run\<close> goes on to execute: it is the screen driver with the
  timeout or 600 when detach is asked for, and the one-shot execution otherwise. It then
  returns or raises after a first connection attempt, what it raises is never that
  error, and once connected the one-shot path runs the command itself, while the detach
  path on a cooperating remote injects it into a screen session and detaches.
\<close>

theorem run_requires_running:
  "(state (instance_info self) \<noteq> RUNNING \<longrightarrow>
       run env self command get_pty detach terminate timeout tr
         = Some (Inl (ValueError (''Instance '' @ instance_id (instance_info self) @ '' is not running'')), tr))
   \<and> (state (instance_info self) = RUNNING \<longrightarrow>
       run env self command get_pty detach terminate timeout tr
         = (if detach
            then run_in_screen env self command True (if truthy timeout then timeout else Some 600)
                   terminate tr
            else Some (run_single env self command timeout get_pty tr))
       \<and> (\<exists>res evs. run env self command get_pty detach terminate timeout tr
           = Some (res, tr @ ConnectCall (next_client tr) (public_ip_address (instance_info self))
                               (user self) (key_filename self) # evs)
          \<and> (\<forall>m. res \<noteq> Inl (ValueError m)))
       \<and> (\<not> detach \<and> connect_raises env (next_client tr) = None \<longrightarrow>
            run env self command get_pty detach terminate timeout tr
              = Some (case exec_result env command of
                        Inl e \<Rightarrow> Inl (External e)
                      | Inr (out, err) \<Rightarrow> Inr \<lparr>stdout = out, stderr = err\<rparr>,
                      tr @ [ConnectCall (next_client tr) (public_ip_address (instance_info self))
                              (user self) (key_filename self),
                            Connected (next_client tr),
                            ExecCommand (next_client tr) command timeout get_pty]))
       \<and> (detach \<and> setup_ok env tr \<and> send_raises env 3 = None \<longrightarrow>
            run env self command get_pty detach terminate timeout tr
              = Some (Inr \<lparr>stdout = [], stderr = []\<rparr>,
                      tr @ setup_events env self command terminate (next_client tr)
                         @ [Send (Suc (next_client tr)) [SOH, CHR ''d''],
                            Close (Suc (next_client tr))])))"
proof (intro conjI impI)
  assume "state (instance_info self) \<noteq> RUNNING"
  then show "run env self command get_pty detach terminate timeout tr
         = Some (Inl (ValueError (''Instance '' @ instance_id (instance_info self) @ '' is not running'')), tr)"
    by (simp add: run_def)
next
  assume "state (instance_info self) = RUNNING"
  then show "run env self command get_pty detach terminate timeout tr
         = (if detach
            then run_in_screen env self command True (if truthy timeout then timeout else Some 600)
                   terminate tr
            else Some (run_single env self command timeout get_pty tr))"
    by (simp add: run_def)
next
  assume running: "state (instance_info self) = RUNNING"
  let ?call = "ConnectCall (next_client tr) (public_ip_address (instance_info self))
                               (user self) (key_filename self)"
  show "\<exists>res evs. run env self command get_pty detach terminate timeout tr = Some (res, tr @ ?call # evs)
          \<and> (\<forall>m. res \<noteq> Inl (ValueError m))"
  proof (cases detach)
    case False
    obtain r t where rs: "run_single env self command timeout get_pty tr = (r, t)"
      by (cases "run_single env self command timeout get_pty tr")
    from run_single_extends [OF rs] obtain evs where "t = tr @ ?call # evs"
      and "\<forall>m. r \<noteq> Inl (ValueError m)" by auto
    with rs running False show ?thesis by (simp add: run_def)
  next
    case True
    let ?t = "if truthy timeout then timeout else Some 600"
    obtain r0 t0 where p: "run_single env self ''which screen'' None False tr = (r0, t0)"
      by (cases "run_single env self ''which screen'' None False tr")
    from detach_total [of env self command ?t terminate tr] obtain r t where
      rs: "run_in_screen env self command True ?t terminate tr = Some (r, t)" by auto
    from run_single_extends [OF p] obtain evs0 where e0: "t0 = tr @ ?call # evs0" by auto
    from run_in_screen_extends [OF p rs] have pre: "prefix t0 t"
      and err: "\<forall>m. r \<noteq> Inl (ValueError m)" by auto
    from pre obtain evs1 where "t = t0 @ evs1" by (auto simp: prefix_def)
    with e0 have "t = tr @ ?call # (evs0 @ evs1)" by simp
    with rs err running True show ?thesis by (simp add: run_def)
  qed
next
  assume running: "state (instance_info self) = RUNNING"
    and "\<not> detach \<and> connect_raises env (next_client tr) = None"
  then show "run env self command get_pty detach terminate timeout tr
              = Some (case exec_result env command of
                        Inl e \<Rightarrow> Inl (External e)
                      | Inr (out, err) \<Rightarrow> Inr \<lparr>stdout = out, stderr = err\<rparr>,
                      tr @ [ConnectCall (next_client tr) (public_ip_address (instance_info self))
                              (user self) (key_filename self),
                            Connected (next_client tr),
                            ExecCommand (next_client tr) command timeout get_pty])"
    by (simp add: run_def run_single_cases split: sum.splits)
next
  assume running: "state (instance_info self) = RUNNING"
    and d: "detach \<and> setup_ok env tr \<and> send_raises env 3 = None"
  let ?t = "if truthy timeout then timeout else Some 600"
  from d have ok: "setup_ok env tr" by simp
  from d have "run_in_screen env self command True ?t terminate tr
      = Some (Inr \<lparr>stdout = [], stderr = []\<rparr>,
              tr @ setup_events env self command terminate (next_client tr)
                 @ [Send (Suc (next_client tr)) [SOH, CHR ''d''], Close (Suc (next_client tr))])"
    unfolding setup_reaches [OF ok] by (simp add: detach_or_poll_def send_def)
  with running d show "run env self command get_pty detach terminate timeout tr
              = Some (Inr \<lparr>stdout = [], stderr = []\<rparr>,
                      tr @ setup_events env self command terminate (next_client tr)
                         @ [Send (Suc (next_client tr)) [SOH, CHR ''d''],
                            Close (Suc (next_client tr))])"
    by (simp add: run_def)
qed

theorem run_requires_running_witness:
  "run quiet_remote stopped_session ''ls'' False False True None []
     = Some (Inl (ValueError ''Instance i-0abc is not running''), [])
   \<and> run quiet_remote demo_session ''ls'' False False True None []
     = Some (Inr \<lparr>stdout = ''hello'' @ [LF], stderr = []\<rparr>,
             [ConnectCall 0 ''10.0.0.7'' ''ec2-user'' None, Connected 0,
              ExecCommand 0 ''ls'' None False])
   \<and> run quiet_remote demo_session ''ls'' False True True None []
     = Some (Inr \<lparr>stdout = [], stderr = []\<rparr>,
             setup_events quiet_remote demo_session ''ls'' True 0
               @ [Send 1 [SOH, CHR ''d''], Close 1])"
proof -
  have 1: "state (instance_info stopped_session) \<noteq> RUNNING" by (simp add: stopped_session_def)
  have 2: "state (instance_info demo_session) = RUNNING" by (simp add: demo_session_def)
  have 3: "connect_raises quiet_remote (next_client []) = None" by (simp add: quiet_remote_def)
  have 4: "send_raises quiet_remote 3 = None" by (simp add: quiet_remote_def)
  from run_requires_running [of stopped_session quiet_remote "''ls''" False False True None "[]"] 1
  have "run quiet_remote stopped_session ''ls'' False False True None []
     = Some (Inl (ValueError (''Instance '' @ instance_id (instance_info stopped_session)
                               @ '' is not running'')), [])"
    by blast
  then have a: "run quiet_remote stopped_session ''ls'' False False True None []
     = Some (Inl (ValueError ''Instance i-0abc is not running''), [])"
    by (simp add: stopped_session_def)
  from run_requires_running [of demo_session quiet_remote "''ls''" False False True None "[]"] 2 3
  have "run quiet_remote demo_session ''ls'' False False True None []
     = Some (case exec_result quiet_remote ''ls'' of
               Inl e \<Rightarrow> Inl (External e)
             | Inr (out, err) \<Rightarrow> Inr \<lparr>stdout = out, stderr = err\<rparr>,
             [] @ [ConnectCall (next_client []) (public_ip_address (instance_info demo_session))
                     (user demo_session) (key_filename demo_session),
                   Connected (next_client []),
                   ExecCommand (next_client []) ''ls'' None False])"
    by blast
  then have b: "run quiet_remote demo_session ''ls'' False False True None []
     = Some (Inr \<lparr>stdout = ''hello'' @ [LF], stderr = []\<rparr>,
             [ConnectCall 0 ''10.0.0.7'' ''ec2-user'' None, Connected 0,
              ExecCommand 0 ''ls'' None False])"
    by (simp add: demo_session_def next_client_def key_filename_def quiet_remote_def)
  from run_requires_running [of demo_session quiet_remote "''ls''" False True True None "[]"] 2 4
    setup_ok_quiet [of "[]"]
  have "run quiet_remote demo_session ''ls'' False True True None []
     = Some (Inr \<lparr>stdout = [], stderr = []\<rparr>,
             [] @ setup_events quiet_remote demo_session ''ls'' True (next_client [])
               @ [Send (Suc (next_client [])) [SOH, CHR ''d''], Close (Suc (next_client []))])"
    by blast
  then have c: "run quiet_remote demo_session ''ls'' False True True None []
     = Some (Inr \<lparr>stdout = [], stderr = []\<rparr>,
             setup_events quiet_remote demo_session ''ls'' True 0
               @ [Send 1 [SOH, CHR ''d''], Close 1])"
    by (simp add: next_client_def)
  from a b c show ?thesis by blast
qed

section \<open>Connections left open\<close>

text \<open>
  Claim C2 asks for at most one live connection at any time and for every opened
  connection to be closed exactly once before the call returns or raises. The one-shot
  path does not do so: \<open>run_single\<close> connects and returns with its client still open,
  and since the driver probes through \<open>run_single\<close>, a run of \<open>run_in_screen\<close> has two
  connections open after its second connect and returns with the one of the probe never
  closed. Only the client opened inside the \<^verbatim>\<open>try\<close> is closed.
\<close>

theorem one_shot_connection_stays_open:
  "run_single quiet_remote demo_session ''echo hello'' None False []
     = (Inr \<lparr>stdout = ''hello'' @ [LF], stderr = []\<rparr>,
        [ConnectCall 0 ''10.0.0.7'' ''ec2-user'' None, Connected 0,
         ExecCommand 0 ''echo hello'' None False])
   \<and> live [ConnectCall 0 ''10.0.0.7'' ''ec2-user'' None, Connected 0,
            ExecCommand 0 ''echo hello'' None False] = [0]
   \<and> run_in_screen quiet_remote demo_session ''ls'' True None True []
     = Some (Inr \<lparr>stdout = [], stderr = []\<rparr>,
             setup_events quiet_remote demo_session ''ls'' True 0 @ [Send 1 [SOH, CHR ''d''], Close 1])
   \<and> live (take 5 (setup_events quiet_remote demo_session ''ls'' True 0)) = [0, 1]
   \<and> live (setup_events quiet_remote demo_session ''ls'' True 0 @ [Send 1 [SOH, CHR ''d''], Close 1]) = [0]
   \<and> closes (setup_events quiet_remote demo_session ''ls'' True 0 @ [Send 1 [SOH, CHR ''d''], Close 1]) 0 = 0"
proof -
  have 1: "run_single quiet_remote demo_session ''echo hello'' None False []
     = (Inr \<lparr>stdout = ''hello'' @ [LF], stderr = []\<rparr>,
        [ConnectCall 0 ''10.0.0.7'' ''ec2-user'' None, Connected 0,
         ExecCommand 0 ''echo hello'' None False])"
    unfolding run_single_cases
    by (simp add: quiet_remote_def demo_session_def next_client_def key_filename_def)
  have 2: "live [ConnectCall 0 ''10.0.0.7'' ''ec2-user'' None, Connected 0,
            ExecCommand 0 ''echo hello'' None False] = [0]"
    by (simp add: live_def)
  have 3: "live (take 5 (setup_events quiet_remote demo_session ''ls'' True 0)) = [0, 1]"
    by (simp add: live_def setup_events_def)
  have 4: "live (setup_events quiet_remote demo_session ''ls'' True 0 @ [Send 1 [SOH, CHR ''d''], Close 1]) = [0]"
    by (simp add: live_def setup_events_def)
  have 5: "closes (setup_events quiet_remote demo_session ''ls'' True 0 @ [Send 1 [SOH, CHR ''d''], Close 1]) 0 = 0"
    by (simp add: closes_def setup_events_def)
  from 1 2 quiet_detach_run 3 4 5 show ?thesis by blast
qed

end
